theory Spec2Isabelle
  imports Main
begin

section \<open>Python strings and values\<close>

text \<open>
  A Python \<open>str\<close> is modelled as the list of its code points, for code points below 256
  (the range of \<^typ>\<open>char\<close>). The string methods the prompt engine uses are given their
  behaviour on that range.
\<close>

text \<open>\<open>str.lower()\<close>, one code point at a time: the letters \<open>A\<close>..\<open>Z\<close> and the Latin-1
  capitals \<open>0xC0\<close>..\<open>0xDE\<close> (without the multiplication sign \<open>0xD7\<close>) move up by 32, which
  sets bit 5; every other code point below 256 is its own lower case.\<close>

fun lower_char :: "char \<Rightarrow> char" where
  "lower_char (Char b0 b1 b2 b3 b4 b5 b6 b7) =
     (let n = (of_char (Char b0 b1 b2 b3 b4 b5 b6 b7) :: nat)
      in if (65 \<le> n \<and> n \<le> 90) \<or> (192 \<le> n \<and> n \<le> 222 \<and> n \<noteq> 215)
         then Char b0 b1 b2 b3 b4 True b6 b7
         else Char b0 b1 b2 b3 b4 b5 b6 b7)"

definition py_lower :: "string \<Rightarrow> string" where
  "py_lower s = map lower_char s"

text \<open>\<open>str.isspace()\<close> on one code point below 256.\<close>

definition isspace :: "char \<Rightarrow> bool" where
  "isspace c =
     (let n = (of_char c :: nat)
      in (9 \<le> n \<and> n \<le> 13) \<or> (28 \<le> n \<and> n \<le> 32) \<or> n = 133 \<or> n = 160)"

text \<open>\<open>str.strip()\<close>: leading and trailing whitespace removed.\<close>

definition py_strip :: "string \<Rightarrow> string" where
  "py_strip s = rev (dropWhile isspace (rev (dropWhile isspace s)))"

text \<open>\<open>s.split(sep)\<close> for a one-character separator: \<open>cur\<close> is the piece being read. The
  result is never empty: \<open>"".split(",")\<close> is \<open>[""]\<close>.\<close>

fun split_from :: "char \<Rightarrow> string \<Rightarrow> string \<Rightarrow> string list" where
  "split_from sep cur [] = [cur]"
| "split_from sep cur (c # cs) =
     (if c = sep then cur # split_from sep [] cs else split_from sep (cur @ [c]) cs)"

definition py_split :: "char \<Rightarrow> string \<Rightarrow> string list" where
  "py_split sep s = split_from sep [] s"

text \<open>\<open>sep.join(xs)\<close> on a list of strings.\<close>

fun py_join :: "string \<Rightarrow> string list \<Rightarrow> string" where
  "py_join sep [] = []"
| "py_join sep [x] = x"
| "py_join sep (x # y # ys) = x @ sep @ py_join sep (y # ys)"

text \<open>\<open>str(n)\<close> for a natural number and for an integer: decimal digits, most significant
  first, a minus sign for a negative integer.\<close>

definition digit_char :: "nat \<Rightarrow> char" where
  "digit_char d =
     (if d = 0 then CHR ''0'' else if d = 1 then CHR ''1'' else if d = 2 then CHR ''2''
      else if d = 3 then CHR ''3'' else if d = 4 then CHR ''4'' else if d = 5 then CHR ''5''
      else if d = 6 then CHR ''6'' else if d = 7 then CHR ''7'' else if d = 8 then CHR ''8''
      else CHR ''9'')"

function str_nat :: "nat \<Rightarrow> string" where
  "str_nat n = (if n < 10 then [digit_char n] else str_nat (n div 10) @ [digit_char (n mod 10)])"
  by pat_completeness auto
termination
  by (relation "measure (\<lambda>n. n)") auto

declare str_nat.simps [simp del]

definition str_int :: "int \<Rightarrow> string" where
  "str_int i = (if i < 0 then CHR ''-'' # str_nat (nat (- i)) else str_nat (nat i))"

text \<open>
  The underlying values of a catalog are typed \<open>Any\<close> in the source. The model has the
  values \<open>None\<close>, booleans, integers and strings; \<open>py_str\<close> is \<open>str(v)\<close> on them. All of
  them can be hashed. A value that cannot (a list, say) lies outside the model: in a
  case-sensitive catalog \<open>_build_maps\<close> uses the value itself as a key of \<open>_value_map\<close> and
  raises on it, so for such a catalog nothing is stated here.
\<close>

datatype pyval = PNone | PBool bool | PInt int | PStr string

fun py_str :: "pyval \<Rightarrow> string" where
  "py_str PNone = ''None''"
| "py_str (PBool b) = (if b then ''True'' else ''False'')"
| "py_str (PInt i) = str_int i"
| "py_str (PStr s) = s"

text \<open>As dictionary keys \<open>True\<close> and \<open>1\<close> (and \<open>False\<close> and \<open>0\<close>) are the same key: they are
  equal and hash alike. \<open>hkey\<close> picks the integer as the representative.\<close>

fun hkey :: "pyval \<Rightarrow> pyval" where
  "hkey (PBool b) = PInt (if b then 1 else 0)"
| "hkey v = v"

datatype error = IndexError | KeyError | TypeError string

section \<open>Dictionaries\<close>

text \<open>
  A Python \<open>dict\<close> keeps its items in insertion order with one item per key: an association
  list whose keys are distinct. \<open>dict_set\<close> is the assignment \<open>d[k] = v\<close> (an existing key
  keeps its position, a new key goes to the end), \<open>getitem\<close> is the subscription \<open>d[k]\<close>,
  which raises \<open>KeyError\<close> on a missing key, and \<open>dict_in\<close> is the test \<open>k in d\<close>.
\<close>

type_synonym ('k, 'v) dict = "('k \<times> 'v) list"

fun dict_set :: "('k, 'v) dict \<Rightarrow> 'k \<Rightarrow> 'v \<Rightarrow> ('k, 'v) dict" where
  "dict_set [] k v = [(k, v)]"
| "dict_set ((k', v') # d) k v = (if k' = k then (k, v) # d else (k', v') # dict_set d k v)"

definition getitem :: "('k, 'v) dict \<Rightarrow> 'k \<Rightarrow> error + 'v" where
  "getitem d k = (case map_of d k of None \<Rightarrow> Inl KeyError | Some v \<Rightarrow> Inr v)"

definition dict_in :: "'k \<Rightarrow> ('k, 'v) dict \<Rightarrow> bool" where
  "dict_in k d = (map_of d k \<noteq> None)"

definition dict_keys :: "('k, 'v) dict \<Rightarrow> 'k list" where
  "dict_keys d = map fst d"

definition dict_values :: "('k, 'v) dict \<Rightarrow> 'v list" where
  "dict_values d = map snd d"

section \<open>The line reader\<close>

text \<open>
  Modelled from the spec: the Line Reader \<open>plim\<close> (\<open>catalyst.shared.plim\<close>) is not among
  the sources. Per the spec, \<open>ask(message)\<close> displays the message and returns one line of raw
  text, possibly empty, and \<open>warn\<close>, \<open>error\<close>, \<open>plain\<close>, \<open>bold\<close> and \<open>divider\<close> display text and
  return nothing. The world holds the lines the user is still going to type and the log of
  everything displayed so far; once the user's lines are used up every further line is empty.
  The pictographs that open some of the source's messages (a warning sign, a cross mark)
  lie beyond code point 255; they and the space after them are left out of the logged text.
\<close>

datatype event =
  Asked string | Warned string | Errored string | Plain string | Bold string | Divider

record world =
  pending :: "string list"
  log :: "event list"

definition emit :: "event \<Rightarrow> world \<Rightarrow> world" where
  "emit e w = w\<lparr>log := log w @ [e]\<rparr>"

definition plim_ask :: "string \<Rightarrow> world \<Rightarrow> string \<times> world" where
  "plim_ask msg w =
     (case pending w of
        [] \<Rightarrow> ([], emit (Asked msg) w)
      | l # ls \<Rightarrow> (l, emit (Asked msg) (w\<lparr>pending := ls\<rparr>)))"

section \<open>The retry and confirm loop\<close>

text \<open>
  What \<open>_do_ask\<close> returns: the class \<open>_Retry\<close>, or a value, which is a single Python value
  (\<open>None\<close> included) or a list of them.
\<close>

datatype reply = Single pyval | Multi "pyval list"

datatype answer = Retry | Got reply

record PromptBase =
  prompt :: string
  retries :: int
  confirm :: bool
  attempts :: int

text \<open>\<open>PromptBase._confirm\<close>. Joining a list that holds a value other than a string raises
  \<open>TypeError\<close> at the first such item, with its position \<open>i\<close> and the name of its type in
  the message; a single value is formatted by the f-string as \<open>str(value)\<close>.\<close>

fun type_name :: "pyval \<Rightarrow> string" where
  "type_name PNone = ''NoneType''"
| "type_name (PBool b) = ''bool''"
| "type_name (PInt i) = ''int''"
| "type_name (PStr s) = ''str''"

fun as_strings :: "nat \<Rightarrow> pyval list \<Rightarrow> error + string list" where
  "as_strings i [] = Inr []"
| "as_strings i (PStr s # vs) =
     (case as_strings (i + 1) vs of Inl e \<Rightarrow> Inl e | Inr ss \<Rightarrow> Inr (s # ss))"
| "as_strings i (v # vs) =
     Inl (TypeError (''sequence item '' @ str_nat i @ '': expected str instance, ''
                     @ type_name v @ '' found''))"

definition do_confirm :: "reply \<Rightarrow> world \<Rightarrow> (error + bool) \<times> world" where
  "do_confirm val w =
     (case (case val of
              Multi vs \<Rightarrow> (case as_strings 0 vs of Inl e \<Rightarrow> Inl e | Inr ss \<Rightarrow> Inr (py_join '', '' ss))
            | Single v \<Rightarrow> Inr (py_str v)) of
        Inl e \<Rightarrow> (Inl e, w)
      | Inr display \<Rightarrow>
          (let (resp, w1) = plim_ask (''Confirm selection:'' @ [CHR 0x0A] @ display @ [CHR 0x0A]
                                      @ ''Confirm? [Y/n]'') w;
               r = py_lower (py_strip resp)
           in (Inr (\<not> (r = ''n'' \<or> r = ''no'')), w1)))"

text \<open>
  \<open>PromptBase.ask\<close>. The subclass's \<open>_do_ask\<close> is the parameter \<open>D\<close>; \<open>r\<close> and \<open>c\<close> are the
  fields \<open>retries\<close> and \<open>confirm\<close>, \<open>a\<close> is the counter \<open>_attempts\<close>. The result is what \<open>ask\<close>
  returns or raises, the counter and the world afterwards.
\<close>

function ask_loop ::
  "(world \<Rightarrow> (error + answer) \<times> world) \<Rightarrow> int \<Rightarrow> bool \<Rightarrow> int \<Rightarrow> world
     \<Rightarrow> (error + answer) \<times> int \<times> world" where
  "ask_loop D r c a w =
     (if a < r then
        (case D w of
           (Inl e, w1) \<Rightarrow> (Inl e, a, w1)
         | (Inr Retry, w1) \<Rightarrow> ask_loop D r c (a + 1) w1
         | (Inr (Got v), w1) \<Rightarrow>
             (if c then
                (case do_confirm v w1 of
                   (Inl e, w2) \<Rightarrow> (Inl e, a, w2)
                 | (Inr ok, w2) \<Rightarrow>
                     (if \<not> ok then ask_loop D r c (a + 1) w2 else (Inr (Got v), a, w2)))
              else (Inr (Got v), a, w1)))
      else (Inr (Got (Single PNone)), a,
            emit Divider (emit (Errored ''Too many invalid attempts.'') w)))"
  by pat_completeness auto
termination
  by (relation "measure (\<lambda>(D, r, c, a, w). nat (r - a))") auto

declare ask_loop.simps [simp del]

section \<open>Option selection\<close>

datatype options =
  OptList "string list" | OptTuple "string list" | OptDict "(string, pyval) dict"

datatype default_item = DInt int | DStr string

datatype default_spec = DNone | DItem default_item | DList "default_item list"

record OptionPrompt = PromptBase +
  options :: options
  default :: default_spec
  case_sensitive :: bool
  multi :: bool
  allow_custom :: bool
  display :: string
  option_dict :: "(string, pyval) dict"
  display_keys :: "string list"
  value_map :: "(pyval, pyval) dict"
  index_map :: "(string, pyval) dict"
  default_keys :: "string list"

text \<open>
  The normalised key \<open>k_norm\<close> (\<open>k_cmp\<close>) and the normalised value \<open>v_norm\<close> (\<open>v_cmp\<close>) of an
  item. In case-sensitive mode the value is taken as it is, not as a string, so both are
  Python values; a string and a value that is not a string are never equal.
\<close>

definition norm_key :: "bool \<Rightarrow> string \<Rightarrow> pyval" where
  "norm_key cs k = PStr (if cs then k else py_lower k)"

definition norm_val :: "bool \<Rightarrow> pyval \<Rightarrow> pyval" where
  "norm_val cs v = (if cs then v else PStr (py_lower (py_str v)))"

text \<open>\<open>OptionPrompt._build_maps\<close>: the loop that fills \<open>_value_map\<close>, the comprehension
  that makes \<open>_index_map\<close> over \<open>enumerate(self._display_keys)\<close>, and the method.\<close>

fun build_value_map ::
  "bool \<Rightarrow> (string, pyval) dict \<Rightarrow> (pyval, pyval) dict \<Rightarrow> (pyval, pyval) dict" where
  "build_value_map cs [] vm = vm"
| "build_value_map cs ((k, v) # items) vm =
     (let k_norm = norm_key cs k;
          v_norm = norm_val cs v;
          vm1 = dict_set vm (hkey k_norm) v;
          vm2 = (if v_norm \<noteq> k_norm then dict_set vm1 (hkey v_norm) v else vm1)
      in build_value_map cs items vm2)"

fun build_index_map ::
  "(string, pyval) dict \<Rightarrow> (nat \<times> string) list \<Rightarrow> (string, pyval) dict
     \<Rightarrow> error + (string, pyval) dict" where
  "build_index_map od [] im = Inr im"
| "build_index_map od ((i, k) # rest) im =
     (case getitem od k of
        Inl e \<Rightarrow> Inl e
      | Inr v \<Rightarrow> build_index_map od rest (dict_set im (str_nat (i + 1)) v))"

definition build_maps :: "OptionPrompt \<Rightarrow> error + OptionPrompt" where
  "build_maps p =
     (let vm = build_value_map (case_sensitive p) (option_dict p) []
      in case build_index_map (option_dict p) (enumerate 0 (display_keys p)) [] of
           Inl e \<Rightarrow> Inl e
         | Inr im \<Rightarrow> Inr (p\<lparr>value_map := vm, index_map := im\<rparr>))"

text \<open>
  \<open>OptionPrompt._resolve_default_keys\<close>. \<open>match_text\<close> is the loop over the items inside the
  local function \<open>match\<close>; the test \<open>cmp in {k_cmp, v_cmp}\<close> is equality with either.
  \<open>keep_match\<close> is \<open>[m] if m else []\<close>: \<open>None\<close> and the empty key are both false.
\<close>

fun match_text :: "bool \<Rightarrow> pyval \<Rightarrow> (string, pyval) dict \<Rightarrow> string option" where
  "match_text cs cmp [] = None"
| "match_text cs cmp ((k, v) # items) =
     (if cmp = norm_key cs k \<or> cmp = norm_val cs v then Some k else match_text cs cmp items)"

definition match :: "OptionPrompt \<Rightarrow> default_item \<Rightarrow> string option" where
  "match p val =
     (case val of
        DInt i \<Rightarrow>
          (if 0 \<le> i \<and> i < int (length (display_keys p)) then Some (display_keys p ! nat i)
           else None)
      | DStr s \<Rightarrow> match_text (case_sensitive p) (norm_key (case_sensitive p) s) (option_dict p))"

definition keep_match :: "string option \<Rightarrow> string list" where
  "keep_match m = (case m of None \<Rightarrow> [] | Some k \<Rightarrow> (if k = [] then [] else [k]))"

definition resolve_default_keys :: "OptionPrompt \<Rightarrow> default_spec \<Rightarrow> string list" where
  "resolve_default_keys p d =
     (case d of
        DList ds \<Rightarrow> concat (map (\<lambda>x. keep_match (match p x)) ds)
      | DItem x \<Rightarrow> keep_match (match p x)
      | DNone \<Rightarrow> [])"

text \<open>\<open>OptionPrompt.__post_init__\<close>, with the normalisation of the option container
  (\<open>option_dict_of\<close>: a dict as it is, a sequence as \<open>{opt: opt for opt in options}\<close>), and the
  construction of an \<open>OptionPrompt\<close> from its keyword arguments: the counter starts at 0 and
  the computed fields are empty before \<open>__post_init__\<close> sets them.\<close>

definition dict_of_seq :: "string list \<Rightarrow> (string, pyval) dict" where
  "dict_of_seq xs = foldl (\<lambda>d opt. dict_set d opt (PStr opt)) [] xs"

definition option_dict_of :: "options \<Rightarrow> (string, pyval) dict" where
  "option_dict_of opts =
     (case opts of
        OptDict d \<Rightarrow> d
      | OptList xs \<Rightarrow> dict_of_seq xs
      | OptTuple xs \<Rightarrow> dict_of_seq xs)"

definition post_init :: "OptionPrompt \<Rightarrow> error + OptionPrompt" where
  "post_init p =
     (let od = option_dict_of (options p);
          p1 = p\<lparr>option_dict := od, display_keys := dict_keys od\<rparr>
      in case build_maps p1 of
           Inl e \<Rightarrow> Inl e
         | Inr p2 \<Rightarrow> Inr (p2\<lparr>default_keys := resolve_default_keys p2 (default p2)\<rparr>))"

definition new_OptionPrompt ::
  "string \<Rightarrow> int \<Rightarrow> bool \<Rightarrow> options \<Rightarrow> default_spec \<Rightarrow> bool \<Rightarrow> bool \<Rightarrow> bool \<Rightarrow> string
     \<Rightarrow> error + OptionPrompt" where
  "new_OptionPrompt pr r c opts d cs m ac disp =
     post_init \<lparr>prompt = pr, retries = r, confirm = c, attempts = 0,
       options = opts, default = d, case_sensitive = cs, multi = m, allow_custom = ac,
       display = disp, option_dict = [], display_keys = [], value_map = [], index_map = [],
       default_keys = []\<rparr>"

text \<open>\<open>OptionPrompt._render_prompt\<close>: the menu lines are displayed while the message is
  built; the message itself is returned.\<close>

fun render_menu_lines :: "string list \<Rightarrow> (nat \<times> string) list \<Rightarrow> world \<Rightarrow> world" where
  "render_menu_lines dks [] w = w"
| "render_menu_lines dks ((idx, key) # rest) w =
     (let tag = (if key \<in> set dks then '' [default]'' else []);
          text = '' ['' @ str_nat idx @ ''] '' @ key @ tag
      in render_menu_lines dks rest
           (emit (if key \<in> set dks then Bold text else Plain text) w))"

definition render_prompt :: "OptionPrompt \<Rightarrow> world \<Rightarrow> string \<times> world" where
  "render_prompt p w =
     (if display p = ''menu'' then
        (let w1 = render_menu_lines (default_keys p) (enumerate 1 (display_keys p)) w;
             rng = ''1-'' @ str_nat (length (display_keys p));
             suffix =
               (if multi p
                then '' ['' @ rng @ '' / all / none''
                     @ (if allow_custom p then '' / custom'' else []) @ '']''
                else '' ['' @ rng @ (if allow_custom p then '' / custom'' else []) @ '']'')
         in (prompt p @ suffix @ '': '', w1))
      else
        (let opts_repr = py_join ''/'' (display_keys p);
             opts_repr = (if multi p then opts_repr @ ''/all/none'' else opts_repr);
             hint = (if allow_custom p then '' | custom'' else []);
             default_txt =
               (if default_keys p \<noteq> []
                then '' (default: '' @ py_join '', '' (default_keys p) @ '')'' else [])
         in (prompt p @ '' ['' @ opts_repr @ hint @ '']'' @ default_txt @ '': '', w)))"

text \<open>\<open>OptionPrompt._handle_empty\<close>: \<open>self._default_keys[0]\<close> raises \<open>IndexError\<close> on an
  empty list, and each subscription of \<open>_option_dict\<close> can raise \<open>KeyError\<close>.\<close>

fun getitems :: "('k, 'v) dict \<Rightarrow> 'k list \<Rightarrow> error + 'v list" where
  "getitems d [] = Inr []"
| "getitems d (k # ks) =
     (case getitem d k of
        Inl e \<Rightarrow> Inl e
      | Inr v \<Rightarrow> (case getitems d ks of Inl e \<Rightarrow> Inl e | Inr vs \<Rightarrow> Inr (v # vs)))"

definition handle_empty :: "OptionPrompt \<Rightarrow> error + answer" where
  "handle_empty p =
     (if default p = DNone then
        (if \<not> multi p then Inr (Got (Single PNone)) else Inr (Got (Multi [])))
      else if \<not> multi p then
        (case default_keys p of
           [] \<Rightarrow> Inl IndexError
         | k # ks \<Rightarrow>
             (case getitem (option_dict p) k of Inl e \<Rightarrow> Inl e | Inr v \<Rightarrow> Inr (Got (Single v))))
      else
        (case getitems (option_dict p) (default_keys p) of
           Inl e \<Rightarrow> Inl e
         | Inr vs \<Rightarrow> Inr (Got (Multi vs))))"

text \<open>
  \<open>OptionPrompt._parse_input\<close>. \<open>tokens\<close> is the list the multi-select loop runs over;
  \<open>multi_loop\<close> is that loop with its two accumulators, where \<open>break\<close> leaves the rest of
  the tokens unread. A test \<open>token in m\<close> followed by \<open>m[token]\<close> is one lookup in the
  model. Tokens are strings, so they are looked up in \<open>_value_map\<close> as strings.
\<close>

definition tokens :: "string \<Rightarrow> string list" where
  "tokens norm = map py_strip (filter (\<lambda>t. py_strip t \<noteq> []) (py_split (CHR '','') norm))"

fun multi_loop ::
  "OptionPrompt \<Rightarrow> string list \<Rightarrow> pyval list \<Rightarrow> string list \<Rightarrow> pyval list \<times> string list" where
  "multi_loop p [] selected unknown = (selected, unknown)"
| "multi_loop p (token # rest) selected unknown =
     (case map_of (index_map p) token of
        Some v \<Rightarrow> multi_loop p rest (selected @ [v]) unknown
      | None \<Rightarrow>
          (case map_of (value_map p) (PStr token) of
             Some v \<Rightarrow> multi_loop p rest (selected @ [v]) unknown
           | None \<Rightarrow>
               (if token = ''all'' \<or> token = ''none'' then
                  ((if token = ''all'' then dict_values (option_dict p) else []), unknown)
                else if allow_custom p then multi_loop p rest (selected @ [PStr token]) unknown
                else multi_loop p rest selected (unknown @ [token]))))"

definition parse_input :: "OptionPrompt \<Rightarrow> string \<Rightarrow> world \<Rightarrow> answer \<times> world" where
  "parse_input p raw w =
     (let norm = (if case_sensitive p then raw else py_lower raw)
      in if multi p then
           (case multi_loop p (tokens norm) [] [] of
              (selected, unknown) \<Rightarrow>
                (if unknown \<noteq> []
                 then (Retry, emit (Warned (''Invalid input: '' @ py_join '', '' unknown)) w)
                 else (Got (Multi selected), w)))
         else
           (case map_of (index_map p) norm of
              Some v \<Rightarrow> (Got (Single v), w)
            | None \<Rightarrow>
                (case map_of (value_map p) (PStr norm) of
                   Some v \<Rightarrow> (Got (Single v), w)
                 | None \<Rightarrow>
                     (if allow_custom p then (Got (Single (PStr raw)), w)
                      else (Retry,
                            emit (Warned (''Invalid input. Expected one of: ''
                                          @ py_join '', '' (display_keys p))) w)))))"

text \<open>\<open>OptionPrompt._do_ask\<close>, and \<open>ask\<close> on an \<open>OptionPrompt\<close>: the result and the prompt
  with its counter as the loop left it.\<close>

definition do_ask :: "OptionPrompt \<Rightarrow> world \<Rightarrow> (error + answer) \<times> world" where
  "do_ask p w =
     (let (prompt_msg, w1) = render_prompt p w;
          (raw, w2) = plim_ask prompt_msg w1
      in if raw = [] then (handle_empty p, w2)
         else (case parse_input p raw w2 of (a, w3) \<Rightarrow> (Inr a, w3)))"

definition ask :: "OptionPrompt \<Rightarrow> world \<Rightarrow> (error + answer) \<times> OptionPrompt \<times> world" where
  "ask p w =
     (case ask_loop (do_ask p) (retries p) (confirm p) (attempts p) w of
        (res, a, w1) \<Rightarrow> (res, p\<lparr>attempts := a\<rparr>, w1))"

section \<open>The yes/no prompt\<close>

text \<open>\<open>YesNoPrompt.__init__\<close>: \<open>default\<close> is a string or \<open>None\<close>; the keyword arguments it
  passes on are \<open>retries\<close> and \<open>confirm\<close>.\<close>

definition YesNoPrompt :: "string \<Rightarrow> string option \<Rightarrow> int \<Rightarrow> bool \<Rightarrow> error + OptionPrompt" where
  "YesNoPrompt pr d r c =
     new_OptionPrompt pr r c (OptDict [(''yes'', PBool True), (''no'', PBool False)])
       (case d of None \<Rightarrow> DNone | Some s \<Rightarrow> DItem (DStr s))
       False False False ''inline''"

section \<open>Free-form collection\<close>

record FreeformPrompt = PromptBase +
  fmulti :: bool

text \<open>
  \<open>FreeformPrompt._do_ask\<close> (the field \<open>multi\<close> of a \<open>FreeformPrompt\<close> is \<open>fmulti\<close> here).
  \<open>echo_entries\<close> displays the entries collected so far; \<open>collect\<close> is the \<open>while True\<close>
  loop, which ends at a blank line or at \<open>done\<close> and so at the latest when the user's lines
  are used up.
\<close>

fun echo_lines :: "(nat \<times> string) list \<Rightarrow> world \<Rightarrow> world" where
  "echo_lines [] w = w"
| "echo_lines ((i, val) # rest) w =
     echo_lines rest (emit (Plain ('' '' @ str_nat i @ ''. '' @ val)) w)"

definition echo_entries :: "string list \<Rightarrow> world \<Rightarrow> world" where
  "echo_entries vals w =
     emit (Plain []) (echo_lines (enumerate 1 vals) (emit (Plain ''Current entries:'') w))"

lemma pending_emit: "pending (emit e w) = pending w"
  by (simp add: emit_def)

lemma pending_echo_lines: "pending (echo_lines xs w) = pending w"
  by (induction xs arbitrary: w) (auto simp: pending_emit)

lemma pending_echo_entries: "pending (echo_entries vals w) = pending w"
  by (simp add: echo_entries_def pending_emit pending_echo_lines)

lemma plim_ask_pending:
  "plim_ask msg w = (raw, w1) \<Longrightarrow> raw \<noteq> [] \<Longrightarrow> length (pending w1) < length (pending w)"
  by (auto simp: plim_ask_def pending_emit split: list.splits)

function collect :: "string \<Rightarrow> string list \<Rightarrow> world \<Rightarrow> string list \<times> world" where
  "collect msg vals w =
     (case plim_ask msg w of
        (raw, w1) \<Rightarrow>
          (if py_lower raw = ''done'' \<or> py_lower raw = [] then (vals, w1)
           else collect msg (vals @ [raw]) (echo_entries (vals @ [raw]) w1)))"
  by pat_completeness auto
termination
  apply (relation "measure (\<lambda>(msg, vals, w). length (pending w))")
   apply simp
  apply (auto simp: pending_echo_entries py_lower_def
      dest!: sym [of _ "plim_ask _ _"] dest: plim_ask_pending)
  done

declare collect.simps [simp del]

definition freeform_do_ask :: "FreeformPrompt \<Rightarrow> world \<Rightarrow> (error + answer) \<times> world" where
  "freeform_do_ask p w =
     (if fmulti p then
        (case collect (prompt p @ '' (or type 'done' to finish): '') [] w of
           (vals, w1) \<Rightarrow>
             (if vals = [] then (Inr Retry, emit (Plain ''No entries provided.'') w1)
              else (Inr (Got (Multi (map PStr vals))), w1)))
      else
        (case plim_ask (prompt p @ '': '') w of
           (raw, w1) \<Rightarrow> (if raw = [] then (Inr Retry, w1) else (Inr (Got (Single (PStr raw))), w1))))"

definition freeform_ask ::
  "FreeformPrompt \<Rightarrow> world \<Rightarrow> (error + answer) \<times> FreeformPrompt \<times> world" where
  "freeform_ask p w =
     (case ask_loop (freeform_do_ask p) (retries p) (confirm p) (attempts p) w of
        (res, a, w1) \<Rightarrow> (res, p\<lparr>attempts := a\<rparr>, w1))"

section \<open>The router\<close>

text \<open>
  The argument \<open>options\<close> of \<open>interactive_prompt\<close> can be any object: \<open>None\<close>, a list, a
  tuple, a dict, or something that is neither a sequence nor a mapping, for which an
  integer stands. The function returns what \<open>ask\<close> returns, or raises.
\<close>

datatype router_options =
  RNone | RList "string list" | RTuple "string list" | RDict "(string, pyval) dict" | RInt int

definition options_error :: error where
  "options_error = TypeError '''options' must be list, dict, or None''"

definition ask_new_option ::
  "error + OptionPrompt \<Rightarrow> world \<Rightarrow> (error + answer) \<times> world" where
  "ask_new_option made w =
     (case made of
        Inl e \<Rightarrow> (Inl e, w)
      | Inr p \<Rightarrow> (case ask p w of (res, p1, w1) \<Rightarrow> (res, w1)))"

definition ask_new_freeform :: "string \<Rightarrow> bool \<Rightarrow> int \<Rightarrow> bool \<Rightarrow> world \<Rightarrow> (error + answer) \<times> world" where
  "ask_new_freeform pr m r c w =
     (case freeform_ask \<lparr>prompt = pr, retries = r, confirm = c, attempts = 0, fmulti = m\<rparr> w of
        (res, p1, w1) \<Rightarrow> (res, w1))"

definition interactive_prompt ::
  "string \<Rightarrow> router_options \<Rightarrow> default_spec \<Rightarrow> bool \<Rightarrow> bool \<Rightarrow> string \<Rightarrow> bool \<Rightarrow> int \<Rightarrow> bool
     \<Rightarrow> string \<Rightarrow> world \<Rightarrow> (error + answer) \<times> world" where
  "interactive_prompt pr opts d m ac freeform c r cs disp w =
     (if freeform = ''single'' \<or> freeform = ''multi'' then
        ask_new_freeform pr (freeform = ''multi'') r c w
      else if opts = RNone then
        ask_new_freeform pr False r c w
      else
        (case opts of
           RList xs \<Rightarrow> ask_new_option (new_OptionPrompt pr r c (OptList xs) d cs m ac disp) w
         | RDict od \<Rightarrow> ask_new_option (new_OptionPrompt pr r c (OptDict od) d cs m ac disp) w
         | _ \<Rightarrow> (Inl options_error, w)))"

section \<open>Notions used in the statements\<close>

text \<open>The items of \<open>_index_map\<close> for a catalog, written out: position \<open>i + 1\<close> as a string,
  with the value the catalog holds under its key at position \<open>i\<close>.\<close>

definition index_items :: "(string, pyval) dict \<Rightarrow> (string, pyval) dict" where
  "index_items od =
     map (\<lambda>(i, k). (str_nat (i + 1), the (map_of od k))) (enumerate 0 (dict_keys od))"

text \<open>What the yes/no prompt makes of a line, read off \<open>_parse_input\<close> and the two maps.\<close>

definition yes_no_reply :: "string \<Rightarrow> answer" where
  "yes_no_reply raw =
     (let n = py_lower raw
      in if n = ''yes'' \<or> n = ''true'' \<or> n = ''1'' then Got (Single (PBool True))
         else if n = ''no'' \<or> n = ''false'' \<or> n = ''2'' then Got (Single (PBool False))
         else Retry)"

text \<open>A token the catalog knows: an index of the index map, or a key or alias of the value
  map. These are the first two tests of the multi-select loop.\<close>

definition known_token :: "OptionPrompt \<Rightarrow> string \<Rightarrow> bool" where
  "known_token p x = (dict_in x (index_map p) \<or> dict_in (PStr x) (value_map p))"

section \<open>Properties of the construction\<close>

subsection \<open>Decimal numerals are distinct\<close>

lemma digit_char_inj: "a < 10 \<Longrightarrow> b < 10 \<Longrightarrow> digit_char a = digit_char b \<Longrightarrow> a = b"
  unfolding digit_char_def by (simp split: if_splits; arith)

lemma str_nat_nonempty: "str_nat n \<noteq> []"
  by (subst str_nat.simps) simp

lemma str_nat_inj: "str_nat n = str_nat m \<Longrightarrow> n = m"
proof (induction n arbitrary: m rule: str_nat.induct)
  case (1 n)
  show ?case
  proof (cases "n < 10")
    case small: True
    show ?thesis
    proof (cases "m < 10")
      case True
      with small "1.prems" show ?thesis
        by (simp add: str_nat.simps [of n] str_nat.simps [of m] digit_char_inj)
    next
      case False
      with small "1.prems" str_nat_nonempty [of "m div 10"] show ?thesis
        by (simp add: str_nat.simps [of n] str_nat.simps [of m])
    qed
  next
    case big: False
    show ?thesis
    proof (cases "m < 10")
      case True
      with big "1.prems" str_nat_nonempty [of "n div 10"] show ?thesis
        by (simp add: str_nat.simps [of n] str_nat.simps [of m])
    next
      case False
      with big "1.prems" have "str_nat (n div 10) = str_nat (m div 10)"
        and d: "digit_char (n mod 10) = digit_char (m mod 10)"
        by (simp_all add: str_nat.simps [of n] str_nat.simps [of m])
      with big "1.IH" have "n div 10 = m div 10"
        by simp
      moreover from d have "n mod 10 = m mod 10"
        by (simp add: digit_char_inj)
      ultimately show ?thesis
        by (metis div_mult_mod_eq)
    qed
  qed
qed

subsection \<open>The index map in closed form\<close>

lemma dict_set_fresh: "k \<notin> fst ` set d \<Longrightarrow> dict_set d k v = d @ [(k, v)]"
  by (induction d) auto

lemma getitem_key: "k \<in> fst ` set d \<Longrightarrow> getitem d k = Inr (the (map_of d k))"
  by (auto simp: getitem_def split: option.splits simp: map_of_eq_None_iff)

lemma build_index_map_enumerate:
  "set ks \<subseteq> fst ` set od \<Longrightarrow> \<forall>j \<ge> n. str_nat (j + 1) \<notin> fst ` set im \<Longrightarrow>
   build_index_map od (enumerate n ks) im =
     Inr (im @ map (\<lambda>(i, k). (str_nat (i + 1), the (map_of od k))) (enumerate n ks))"
proof (induction ks arbitrary: n im)
  case Nil
  then show ?case by simp
next
  case (Cons k ks)
  let ?im = "im @ [(str_nat (n + 1), the (map_of od k))]"
  have fresh: "\<forall>j \<ge> Suc n. str_nat (j + 1) \<notin> fst ` set ?im"
    using Cons.prems(2) by (auto dest: str_nat_inj)
  have "build_index_map od (enumerate (Suc n) ks) ?im =
     Inr (?im @ map (\<lambda>(i, k). (str_nat (i + 1), the (map_of od k))) (enumerate (Suc n) ks))"
    using Cons.IH [of "Suc n" ?im] Cons.prems(1) fresh by simp
  moreover have "dict_set im (str_nat (n + 1)) (the (map_of od k)) = ?im"
    using Cons.prems(2) by (intro dict_set_fresh) auto
  ultimately show ?case
    using Cons.prems(1) by (simp add: getitem_key)
qed

lemma match_cong:
  "display_keys p = display_keys q \<Longrightarrow> case_sensitive p = case_sensitive q \<Longrightarrow>
   option_dict p = option_dict q \<Longrightarrow> match p v = match q v"
  by (simp add: match_def split: default_item.splits)

lemma resolve_default_keys_cong:
  "display_keys p = display_keys q \<Longrightarrow> case_sensitive p = case_sensitive q \<Longrightarrow>
   option_dict p = option_dict q \<Longrightarrow> resolve_default_keys p d = resolve_default_keys q d"
  by (simp add: resolve_default_keys_def match_cong [of p q] split: default_spec.splits)

lemma new_OptionPrompt_fields:
  "\<exists>p. new_OptionPrompt pr r c opts d cs m ac disp = Inr p \<and>
     prompt p = pr \<and> retries p = r \<and> confirm p = c \<and> attempts p = 0 \<and>
     options p = opts \<and> default p = d \<and> case_sensitive p = cs \<and> multi p = m \<and>
     allow_custom p = ac \<and> display p = disp \<and>
     option_dict p = option_dict_of opts \<and>
     display_keys p = dict_keys (option_dict_of opts) \<and>
     value_map p = build_value_map cs (option_dict_of opts) [] \<and>
     index_map p = index_items (option_dict_of opts) \<and>
     default_keys p = resolve_default_keys p d"
proof -
  have "build_index_map (option_dict_of opts) (enumerate 0 (dict_keys (option_dict_of opts))) []
      = Inr (index_items (option_dict_of opts))"
    using build_index_map_enumerate [of "dict_keys (option_dict_of opts)" "option_dict_of opts" 0 "[]"]
    by (simp add: index_items_def dict_keys_def)
  then show ?thesis
    by (simp add: new_OptionPrompt_def post_init_def build_maps_def Let_def)
      (rule resolve_default_keys_cong; simp)
qed

lemma map_on_fst: "map (\<lambda>p. f (fst p)) xs = map f (map fst xs)"
  by (simp only: map_map comp_def)

lemma index_items_keys: "dict_keys (index_items od) = map str_nat [1 ..< length od + 1]"
proof -
  have "map fst (index_items od) = map (\<lambda>p. str_nat (Suc (fst p))) (enumerate 0 (dict_keys od))"
    by (simp add: index_items_def case_prod_unfold comp_def)
  also have "\<dots> = map (\<lambda>i. str_nat (Suc i)) (map fst (enumerate 0 (dict_keys od)))"
    by (rule map_on_fst)
  also have "\<dots> = map str_nat (map Suc [0 ..< length od])"
    by (simp add: dict_keys_def comp_def)
  also have "\<dots> = map str_nat [1 ..< length od + 1]"
    by (simp only: map_Suc_upt) simp
  finally show ?thesis
    by (simp add: dict_keys_def)
qed

lemma index_items_distinct: "distinct (dict_keys (index_items od))"
  unfolding index_items_keys
  by (rule distinct_map [THEN iffD2]) (auto intro: inj_onI dest: str_nat_inj)

lemma index_items_nth:
  "j < length od \<Longrightarrow>
     index_items od ! j = (str_nat (j + 1), the (map_of od (dict_keys od ! j)))"
  by (simp add: index_items_def dict_keys_def nth_enumerate_eq)

lemma index_items_length: "length (index_items od) = length od"
  by (simp add: index_items_def dict_keys_def)

lemma index_items_lookup:
  assumes "1 \<le> i" and "i \<le> length od"
  shows "getitem (index_items od) (str_nat i) = Inr (the (map_of od (dict_keys od ! (i - 1))))"
proof -
  from assms have "i - 1 < length (index_items od)"
    by (simp add: index_items_length)
  then have "index_items od ! (i - 1) \<in> set (index_items od)"
    by (rule nth_mem)
  with assms have "(str_nat i, the (map_of od (dict_keys od ! (i - 1)))) \<in> set (index_items od)"
    by (simp add: index_items_nth)
  with index_items_distinct [of od]
  have "map_of (index_items od) (str_nat i) = Some (the (map_of od (dict_keys od ! (i - 1))))"
    by (simp add: dict_keys_def)
  then show ?thesis
    by (simp add: getitem_def)
qed

lemma getitem_nth_key:
  "j < length od \<Longrightarrow> getitem od (dict_keys od ! j) = Inr (the (map_of od (dict_keys od ! j)))"
  by (rule getitem_key) (simp add: dict_keys_def)

text \<open>
  Claim C9. Constructing an Option Selection over any options collection succeeds, and
  for the catalog of size \<open>N\<close> it yields an index map with exactly \<open>N\<close> entries whose keys are
  the strings \<open>str(1)\<close>, ..., \<open>str(N)\<close> in this order, all different; the entry for \<open>str(i)\<close>
  is the underlying value the catalog holds for its key at 1-based position \<open>i\<close>.
\<close>

theorem index_map_exact:
  "\<exists>p. new_OptionPrompt pr r c opts d cs m ac disp = Inr p \<and>
     option_dict p = option_dict_of opts \<and>
     display_keys p = dict_keys (option_dict p) \<and>
     length (index_map p) = length (option_dict p) \<and>
     dict_keys (index_map p) = map str_nat [1 ..< length (option_dict p) + 1] \<and>
     distinct (dict_keys (index_map p)) \<and>
     (\<forall>i. 1 \<le> i \<and> i \<le> length (option_dict p) \<longrightarrow>
        (\<exists>v. getitem (option_dict p) (display_keys p ! (i - 1)) = Inr v \<and>
             getitem (index_map p) (str_nat i) = Inr v))"
proof -
  from new_OptionPrompt_fields [of pr r c opts d cs m ac disp]
  obtain p where p: "new_OptionPrompt pr r c opts d cs m ac disp = Inr p"
    "option_dict p = option_dict_of opts" "display_keys p = dict_keys (option_dict_of opts)"
    "index_map p = index_items (option_dict_of opts)"
    by blast
  let ?od = "option_dict_of opts"
  have len: "length (index_map p) = length (option_dict p)"
    using p by (simp add: index_items_length)
  have keys: "dict_keys (index_map p) = map str_nat [1 ..< length (option_dict p) + 1]"
    using p by (simp only: index_items_keys)
  have dist: "distinct (dict_keys (index_map p))"
    using p by (simp only: index_items_distinct)
  have vals: "\<forall>i. 1 \<le> i \<and> i \<le> length (option_dict p) \<longrightarrow>
        (\<exists>v. getitem (option_dict p) (display_keys p ! (i - 1)) = Inr v \<and>
             getitem (index_map p) (str_nat i) = Inr v)"
  proof (intro allI impI)
    fix i
    assume i: "1 \<le> i \<and> i \<le> length (option_dict p)"
    then have "i - 1 < length ?od"
      using p by (simp del: One_nat_def) arith
    then have "getitem ?od (dict_keys ?od ! (i - 1)) = Inr (the (map_of ?od (dict_keys ?od ! (i - 1))))"
      by (rule getitem_nth_key)
    moreover from i p have "getitem (index_items ?od) (str_nat i)
        = Inr (the (map_of ?od (dict_keys ?od ! (i - 1))))"
      by (simp add: index_items_lookup)
    ultimately show "\<exists>v. getitem (option_dict p) (display_keys p ! (i - 1)) = Inr v \<and>
        getitem (index_map p) (str_nat i) = Inr v"
      using p by simp
  qed
  have "display_keys p = dict_keys (option_dict p)"
    using p by simp
  with p(1,2) len keys dist vals show ?thesis
    by blast
qed

theorem index_map_exact_witness:
  "\<exists>p. new_OptionPrompt ''Fruit?'' 3 False
          (OptDict [(''Apple'', PInt 1), (''Banana'', PInt 2), (''Cherry'', PInt 3)])
          DNone False False False ''inline'' = Inr p \<and>
     length (index_map p) = 3 \<and>
     dict_keys (index_map p) = [''1'', ''2'', ''3''] \<and>
     getitem (index_map p) ''2'' = Inr (PInt 2)"
proof -
  from index_map_exact [of "''Fruit?''" 3 False
      "OptDict [(''Apple'', PInt 1), (''Banana'', PInt 2), (''Cherry'', PInt 3)]"
      DNone False False False "''inline''"]
  obtain p where p: "new_OptionPrompt ''Fruit?'' 3 False
        (OptDict [(''Apple'', PInt 1), (''Banana'', PInt 2), (''Cherry'', PInt 3)])
        DNone False False False ''inline'' = Inr p"
    and od: "option_dict p = [(''Apple'', PInt 1), (''Banana'', PInt 2), (''Cherry'', PInt 3)]"
    and dk: "display_keys p = dict_keys (option_dict p)"
    and len: "length (index_map p) = length (option_dict p)"
    and keys: "dict_keys (index_map p) = map str_nat [1 ..< length (option_dict p) + 1]"
    and vals: "\<forall>i. 1 \<le> i \<and> i \<le> length (option_dict p) \<longrightarrow>
        (\<exists>v. getitem (option_dict p) (display_keys p ! (i - 1)) = Inr v \<and>
             getitem (index_map p) (str_nat i) = Inr v)"
    by (auto simp: option_dict_of_def)
  have n: "length (option_dict p) = 3"
    using od by simp
  have k: "map str_nat [1 ..< 3 + 1] = [''1'', ''2'', ''3'']"
    by code_simp
  have s: "str_nat 2 = ''2''"
    by code_simp
  from vals [rule_format, of 2] od dk have "getitem (index_map p) ''2'' = Inr (PInt 2)"
    by (simp add: s dict_keys_def getitem_def)
  moreover from keys have "dict_keys (index_map p) = [''1'', ''2'', ''3'']"
    by (simp only: n k)
  ultimately show ?thesis
    using p len n by simp
qed

section \<open>The yes/no prompt's answers\<close>

lemma yes_no_index_items:
  "index_items [(''yes'', PBool True), (''no'', PBool False)] = [(''1'', PBool True), (''2'', PBool False)]"
  by (simp add: index_items_def dict_keys_def enumerate_eq_zip str_nat.simps digit_char_def upt_rec)

lemma yes_no_value_map:
  "build_value_map False [(''yes'', PBool True), (''no'', PBool False)] [] =
     [(PStr ''yes'', PBool True), (PStr ''true'', PBool True),
      (PStr ''no'', PBool False), (PStr ''false'', PBool False)]"
  by (simp add: norm_key_def norm_val_def py_lower_def)

lemma YesNoPrompt_fields:
  "\<exists>p. YesNoPrompt pr d r c = Inr p \<and>
     prompt p = pr \<and> retries p = r \<and> confirm p = c \<and> attempts p = 0 \<and>
     \<not> case_sensitive p \<and> \<not> multi p \<and> \<not> allow_custom p \<and> display p = ''inline'' \<and>
     option_dict p = [(''yes'', PBool True), (''no'', PBool False)] \<and>
     display_keys p = [''yes'', ''no''] \<and>
     value_map p = [(PStr ''yes'', PBool True), (PStr ''true'', PBool True),
                    (PStr ''no'', PBool False), (PStr ''false'', PBool False)] \<and>
     index_map p = [(''1'', PBool True), (''2'', PBool False)]"
  using new_OptionPrompt_fields [of pr r c "OptDict [(''yes'', PBool True), (''no'', PBool False)]"
      "case d of None \<Rightarrow> DNone | Some s \<Rightarrow> DItem (DStr s)" False False False "''inline''"]
  by (auto simp: YesNoPrompt_def option_dict_of_def dict_keys_def yes_no_index_items yes_no_value_map
      simp del: build_value_map.simps)

lemma yes_no_parse_input:
  assumes "\<not> case_sensitive p" "\<not> multi p" "\<not> allow_custom p"
    "display_keys p = [''yes'', ''no'']"
    "value_map p = [(PStr ''yes'', PBool True), (PStr ''true'', PBool True),
                    (PStr ''no'', PBool False), (PStr ''false'', PBool False)]"
    "index_map p = [(''1'', PBool True), (''2'', PBool False)]"
  shows "parse_input p raw w =
     (yes_no_reply raw,
      if yes_no_reply raw = Retry
      then emit (Warned ''Invalid input. Expected one of: yes, no'') w else w)"
  using assms by (simp add: parse_input_def yes_no_reply_def Let_def)

lemma yes_no_do_ask:
  assumes "\<not> case_sensitive p" "\<not> multi p" "\<not> allow_custom p" "display p = ''inline''"
    "display_keys p = [''yes'', ''no'']"
    "value_map p = [(PStr ''yes'', PBool True), (PStr ''true'', PBool True),
                    (PStr ''no'', PBool False), (PStr ''false'', PBool False)]"
    "index_map p = [(''1'', PBool True), (''2'', PBool False)]"
    and w: "pending w = raw # rest" "raw \<noteq> []"
  shows "do_ask p w =
     (Inr (yes_no_reply raw),
      (if yes_no_reply raw = Retry
       then emit (Warned ''Invalid input. Expected one of: yes, no'') else id)
        (emit (Asked (fst (render_prompt p w))) (w\<lparr>pending := rest\<rparr>)))"
proof -
  have "snd (render_prompt p w) = w"
    using assms(4) by (simp add: render_prompt_def Let_def)
  then have r: "render_prompt p w = (fst (render_prompt p w), w)"
    by (metis prod.collapse)
  have a: "plim_ask msg w = (raw, emit (Asked msg) (w\<lparr>pending := rest\<rparr>))" for msg
    using w by (simp add: plim_ask_def)
  show ?thesis
    unfolding do_ask_def
    by (subst r) (simp add: a w yes_no_parse_input [OF assms(1-3,5-7)])
qed

text \<open>
  Claim C10. A yes/no prompt can always be constructed, and for every non-empty line its
  validation step \<open>_do_ask\<close> returns \<open>True\<close> exactly when the lower-cased line is \<open>yes\<close>,
  \<open>true\<close> or \<open>1\<close>, returns \<open>False\<close> exactly when it is \<open>no\<close>, \<open>false\<close> or \<open>2\<close>, and yields the
  Retry Sentinel for every other line; in particular \<open>y\<close> and \<open>n\<close>, in either casing, yield the
  Retry Sentinel.
\<close>

theorem yes_no_accepted_inputs:
  "\<exists>p. YesNoPrompt pr d r c = Inr p \<and>
     (\<forall>w raw rest. pending w = raw # rest \<and> raw \<noteq> [] \<longrightarrow>
        fst (do_ask p w) =
          (if py_lower raw \<in> {''yes'', ''true'', ''1''} then Inr (Got (Single (PBool True)))
           else if py_lower raw \<in> {''no'', ''false'', ''2''} then Inr (Got (Single (PBool False)))
           else Inr Retry)) \<and>
     (\<forall>w raw rest. pending w = raw # rest \<and> py_lower raw \<in> {''y'', ''n''} \<longrightarrow>
        fst (do_ask p w) = Inr Retry)"
proof -
  from YesNoPrompt_fields [of pr d r c]
  obtain p where p: "YesNoPrompt pr d r c = Inr p"
    and f: "\<not> case_sensitive p" "\<not> multi p" "\<not> allow_custom p" "display p = ''inline''"
      "display_keys p = [''yes'', ''no'']"
      "value_map p = [(PStr ''yes'', PBool True), (PStr ''true'', PBool True),
                      (PStr ''no'', PBool False), (PStr ''false'', PBool False)]"
      "index_map p = [(''1'', PBool True), (''2'', PBool False)]"
    by blast
  have main: "fst (do_ask p w) = Inr (yes_no_reply raw)"
    if "pending w = raw # rest" "raw \<noteq> []" for w raw rest
    using yes_no_do_ask [OF f that] by simp
  have "fst (do_ask p w) = Inr Retry"
    if "pending w = raw # rest" "py_lower raw \<in> {''y'', ''n''}" for w raw rest
  proof -
    from that(2) have "raw \<noteq> []"
      by (auto simp: py_lower_def)
    with that main [of w raw rest] show ?thesis
      by (auto simp: yes_no_reply_def)
  qed
  with p main show ?thesis
    by (auto simp: yes_no_reply_def Let_def)
qed

text \<open>Claim C10 at the lines \<open>TRUE\<close>, \<open>2\<close>, \<open>yes please\<close> and \<open>Y\<close>.\<close>

theorem yes_no_accepted_inputs_witness:
  "\<exists>p. YesNoPrompt ''Sure?'' None 3 False = Inr p \<and>
     fst (do_ask p \<lparr>pending = [''TRUE''], log = []\<rparr>) = Inr (Got (Single (PBool True))) \<and>
     fst (do_ask p \<lparr>pending = [''2''], log = []\<rparr>) = Inr (Got (Single (PBool False))) \<and>
     fst (do_ask p \<lparr>pending = [''yes please''], log = []\<rparr>) = Inr Retry \<and>
     fst (do_ask p \<lparr>pending = [''Y''], log = []\<rparr>) = Inr Retry"
proof -
  from yes_no_accepted_inputs [of "''Sure?''" None 3 False]
  obtain p where p: "YesNoPrompt ''Sure?'' None 3 False = Inr p"
    and a: "\<And>w raw rest. pending w = raw # rest \<and> raw \<noteq> [] \<Longrightarrow>
        fst (do_ask p w) =
          (if py_lower raw \<in> {''yes'', ''true'', ''1''} then Inr (Got (Single (PBool True)))
           else if py_lower raw \<in> {''no'', ''false'', ''2''} then Inr (Got (Single (PBool False)))
           else Inr Retry)"
    and b: "\<And>w raw rest. pending w = raw # rest \<and> py_lower raw \<in> {''y'', ''n''} \<Longrightarrow>
        fst (do_ask p w) = Inr Retry"
    by blast
  have "fst (do_ask p \<lparr>pending = [''TRUE''], log = []\<rparr>) = Inr (Got (Single (PBool True)))"
    using a [of "\<lparr>pending = [''TRUE''], log = []\<rparr>" "''TRUE''" "[]"] by (simp add: py_lower_def)
  moreover have "fst (do_ask p \<lparr>pending = [''2''], log = []\<rparr>) = Inr (Got (Single (PBool False)))"
    using a [of "\<lparr>pending = [''2''], log = []\<rparr>" "''2''" "[]"] by (simp add: py_lower_def)
  moreover have "fst (do_ask p \<lparr>pending = [''yes please''], log = []\<rparr>) = Inr Retry"
    using a [of "\<lparr>pending = [''yes please''], log = []\<rparr>" "''yes please''" "[]"]
    by (simp add: py_lower_def)
  moreover have "fst (do_ask p \<lparr>pending = [''Y''], log = []\<rparr>) = Inr Retry"
    using b [of "\<lparr>pending = [''Y''], log = []\<rparr>" "''Y''" "[]"] by (simp add: py_lower_def)
  ultimately show ?thesis
    using p by blast
qed

text \<open>
  Claim C1 says the line \<open>N\<close> is accepted and gives \<open>False\<close>. It is not: \<open>n\<close> is neither an
  index nor a key nor a stringified value of the catalog, so the validation step yields the
  Retry Sentinel.
\<close>

theorem yes_no_rejects_N_counterexample:
  "\<exists>p. YesNoPrompt ''Sure?'' None 3 False = Inr p \<and>
     fst (do_ask p \<lparr>pending = [''N''], log = []\<rparr>) = Inr Retry \<and>
     fst (do_ask p \<lparr>pending = [''N''], log = []\<rparr>) \<noteq> Inr (Got (Single (PBool False)))"
proof -
  from YesNoPrompt_fields [of "''Sure?''" None 3 False]
  obtain p where p: "YesNoPrompt ''Sure?'' None 3 False = Inr p"
    and f: "\<not> case_sensitive p" "\<not> multi p" "\<not> allow_custom p" "display p = ''inline''"
      "display_keys p = [''yes'', ''no'']"
      "value_map p = [(PStr ''yes'', PBool True), (PStr ''true'', PBool True),
                      (PStr ''no'', PBool False), (PStr ''false'', PBool False)]"
      "index_map p = [(''1'', PBool True), (''2'', PBool False)]"
    by blast
  have "fst (do_ask p \<lparr>pending = [''N''], log = []\<rparr>) = Inr Retry"
    using yes_no_do_ask [OF f, of "\<lparr>pending = [''N''], log = []\<rparr>" "''N''" "[]"]
    by (simp add: yes_no_reply_def py_lower_def)
  with p show ?thesis
    by auto
qed

text \<open>
  Claim C1, amended. For the yes/no prompt the line \<open>no\<close>, in any casing, is accepted and
  the validation step returns \<open>False\<close>; the line \<open>N\<close>, in either casing, and the line \<open>maybe\<close>
  each yield the Retry Sentinel together with a warning that lists \<open>yes, no\<close>, displayed
  right after the question.
\<close>

theorem yes_no_scenario:
  "\<exists>p. YesNoPrompt pr d r c = Inr p \<and>
     (\<forall>w raw rest. pending w = raw # rest \<and> py_lower raw = ''no'' \<longrightarrow>
        fst (do_ask p w) = Inr (Got (Single (PBool False)))) \<and>
     (\<forall>w raw rest. pending w = raw # rest \<and> (py_lower raw = ''n'' \<or> raw = ''maybe'') \<longrightarrow>
        fst (do_ask p w) = Inr Retry \<and>
        log (snd (do_ask p w)) =
          log w @ [Asked (fst (render_prompt p w)),
                   Warned (''Invalid input. Expected one of: '' @ py_join '', '' [''yes'', ''no''])])"
proof -
  from YesNoPrompt_fields [of pr d r c]
  obtain p where p: "YesNoPrompt pr d r c = Inr p"
    and f: "\<not> case_sensitive p" "\<not> multi p" "\<not> allow_custom p" "display p = ''inline''"
      "display_keys p = [''yes'', ''no'']"
      "value_map p = [(PStr ''yes'', PBool True), (PStr ''true'', PBool True),
                      (PStr ''no'', PBool False), (PStr ''false'', PBool False)]"
      "index_map p = [(''1'', PBool True), (''2'', PBool False)]"
    by blast
  have no: "fst (do_ask p w) = Inr (Got (Single (PBool False)))"
    if "pending w = raw # rest" "py_lower raw = ''no''" for w raw rest
  proof -
    from that(2) have "raw \<noteq> []"
      by (auto simp: py_lower_def)
    with that yes_no_do_ask [OF f, of w raw rest] show ?thesis
      by (simp add: yes_no_reply_def)
  qed
  have bad: "fst (do_ask p w) = Inr Retry \<and>
      log (snd (do_ask p w)) =
        log w @ [Asked (fst (render_prompt p w)),
                 Warned (''Invalid input. Expected one of: '' @ py_join '', '' [''yes'', ''no''])]"
    if "pending w = raw # rest" "py_lower raw = ''n'' \<or> raw = ''maybe''" for w raw rest
  proof -
    from that(2) have "raw \<noteq> []" and "yes_no_reply raw = Retry"
      by (auto simp: py_lower_def yes_no_reply_def)
    with that(1) yes_no_do_ask [OF f, of w raw rest] show ?thesis
      by (simp add: emit_def)
  qed
  from p no bad show ?thesis
    by blast
qed

text \<open>Claim C1, amended, at the lines \<open>No\<close>, \<open>N\<close> and \<open>maybe\<close>.\<close>

theorem yes_no_scenario_witness:
  "\<exists>p. YesNoPrompt ''Sure?'' None 3 False = Inr p \<and>
     fst (do_ask p \<lparr>pending = [''No''], log = []\<rparr>) = Inr (Got (Single (PBool False))) \<and>
     fst (do_ask p \<lparr>pending = [''N''], log = []\<rparr>) = Inr Retry \<and>
     fst (do_ask p \<lparr>pending = [''maybe''], log = []\<rparr>) = Inr Retry \<and>
     log (snd (do_ask p \<lparr>pending = [''maybe''], log = []\<rparr>)) =
       [Asked ''Sure? [yes/no]: '', Warned ''Invalid input. Expected one of: yes, no'']"
proof -
  from yes_no_scenario [of "''Sure?''" None 3 False]
  obtain p where p: "YesNoPrompt ''Sure?'' None 3 False = Inr p"
    and a: "\<And>w raw rest. pending w = raw # rest \<and> py_lower raw = ''no'' \<Longrightarrow>
        fst (do_ask p w) = Inr (Got (Single (PBool False)))"
    and b: "\<And>w raw rest. pending w = raw # rest \<and> (py_lower raw = ''n'' \<or> raw = ''maybe'') \<Longrightarrow>
        fst (do_ask p w) = Inr Retry \<and>
        log (snd (do_ask p w)) =
          log w @ [Asked (fst (render_prompt p w)),
                   Warned (''Invalid input. Expected one of: '' @ py_join '', '' [''yes'', ''no''])]"
    by blast
  from YesNoPrompt_fields [of "''Sure?''" None 3 False] p
  have f: "prompt p = ''Sure?''" "\<not> multi p" "\<not> allow_custom p" "display p = ''inline''"
    "display_keys p = [''yes'', ''no'']"
    "option_dict p = [(''yes'', PBool True), (''no'', PBool False)]"
    "\<not> case_sensitive p"
    by auto
  have "default_keys p = []"
    using new_OptionPrompt_fields [of "''Sure?''" 3 False
        "OptDict [(''yes'', PBool True), (''no'', PBool False)]" DNone False False False "''inline''"]
      p by (auto simp: YesNoPrompt_def resolve_default_keys_def)
  then have msg: "fst (render_prompt p w) = ''Sure? [yes/no]: ''" for w
    using f by (simp add: render_prompt_def Let_def)
  have "fst (do_ask p \<lparr>pending = [''No''], log = []\<rparr>) = Inr (Got (Single (PBool False)))"
    using a [of "\<lparr>pending = [''No''], log = []\<rparr>" "''No''" "[]"] by (simp add: py_lower_def)
  moreover have "fst (do_ask p \<lparr>pending = [''N''], log = []\<rparr>) = Inr Retry"
    using b [of "\<lparr>pending = [''N''], log = []\<rparr>" "''N''" "[]"] by (simp add: py_lower_def)
  moreover have "fst (do_ask p \<lparr>pending = [''maybe''], log = []\<rparr>) = Inr Retry \<and>
     log (snd (do_ask p \<lparr>pending = [''maybe''], log = []\<rparr>)) =
       [Asked ''Sure? [yes/no]: '', Warned ''Invalid input. Expected one of: yes, no'']"
    using b [of "\<lparr>pending = [''maybe''], log = []\<rparr>" "''maybe''" "[]"] by (simp add: msg)
  ultimately show ?thesis
    using p by blast
qed

section \<open>The retry loop's bounds\<close>

lemma ask_loop_exhausted:
  "r \<le> a \<Longrightarrow> ask_loop D r c a w =
     (Inr (Got (Single PNone)), a, emit Divider (emit (Errored ''Too many invalid attempts.'') w))"
  by (subst ask_loop.simps) simp

lemma ask_loop_retry:
  "a < r \<Longrightarrow> fst (D w) = Inr Retry \<Longrightarrow> ask_loop D r c a w = ask_loop D r c (a + 1) (snd (D w))"
  by (subst ask_loop.simps) (auto split: prod.splits)

lemma ask_loop_all_retry:
  "a \<le> r \<Longrightarrow> n = nat (r - a) \<Longrightarrow> \<forall>i < n. fst (D (((snd \<circ> D) ^^ i) w)) = Inr Retry \<Longrightarrow>
   ask_loop D r c a w =
     (Inr (Got (Single PNone)), r,
      emit Divider (emit (Errored ''Too many invalid attempts.'') (((snd \<circ> D) ^^ n) w)))"
proof (induction n arbitrary: a w)
  case 0
  then have "r \<le> a" "a = r"
    by simp_all
  then show ?case
    by (simp add: ask_loop_exhausted)
next
  case (Suc n)
  from Suc.prems have lt: "a < r" and n: "n = nat (r - (a + 1))"
    by simp_all
  from Suc.prems(3) have first: "fst (D w) = Inr Retry"
    by (metis funpow_0 zero_less_Suc)
  have shift: "((snd \<circ> D) ^^ Suc i) w = ((snd \<circ> D) ^^ i) (snd (D w))" for i
    by (simp only: funpow_Suc_right comp_apply)
  have rest: "\<forall>i < n. fst (D (((snd \<circ> D) ^^ i) (snd (D w)))) = Inr Retry"
  proof (intro allI impI)
    fix i
    assume "i < n"
    then have "fst (D (((snd \<circ> D) ^^ Suc i) w)) = Inr Retry"
      using Suc.prems(3) by blast
    then show "fst (D (((snd \<circ> D) ^^ i) (snd (D w)))) = Inr Retry"
      by (simp only: shift)
  qed
  from lt have "a + 1 \<le> r"
    by simp
  from Suc.IH [OF this n rest] lt first show ?case
    by (simp only: ask_loop_retry shift)
qed

text \<open>
  Claim C8. Take any prompt, that is any validation step \<open>D\<close>, with \<open>retries = r\<close>, a
  non-negative integer as the prompt specification requires, asked for the first time
  (counter 0). If each of the \<open>r\<close> attempts yields the Retry Sentinel, \<open>ask\<close> terminates and
  returns \<open>None\<close>, the absent-value sentinel, which is not the Retry Sentinel; the attempt
  counter is then \<open>r\<close>; and the error notice and the divider are the last things displayed,
  after everything the \<open>r\<close> attempts displayed.
\<close>

theorem ask_exhaustion:
  assumes "0 \<le> r"
    and "\<forall>i < nat r. fst (D (((snd \<circ> D) ^^ i) w)) = Inr Retry"
  shows "\<exists>w'. ask_loop D r c 0 w = (Inr (Got (Single PNone)), r, w') \<and>
     Got (Single PNone) \<noteq> Retry \<and>
     log w' = log (((snd \<circ> D) ^^ nat r) w) @ [Errored ''Too many invalid attempts.'', Divider]"
  using ask_loop_all_retry [of 0 r "nat r" D w c] assms by (simp add: emit_def)

text \<open>Claim C8 for a free-form prompt with two retries and a user who only sends blank
  lines.\<close>

theorem ask_exhaustion_witness:
  "ask_loop (freeform_do_ask \<lparr>prompt = ''Name'', retries = 2, confirm = False, attempts = 0, fmulti = False\<rparr>)
      2 False 0 \<lparr>pending = [[]], log = []\<rparr> =
     (Inr (Got (Single PNone)), 2,
      \<lparr>pending = [],
       log = [Asked ''Name: '', Asked ''Name: '', Errored ''Too many invalid attempts.'', Divider]\<rparr>)"
proof -
  let ?D = "freeform_do_ask \<lparr>prompt = ''Name'', retries = 2, confirm = False, attempts = 0, fmulti = False\<rparr>"
  let ?w = "\<lparr>pending = [[]], log = []\<rparr>"
  have two: "i < nat 2 \<longleftrightarrow> i = 0 \<or> i = 1" for i
    by auto
  have s1: "?D ?w = (Inr Retry, \<lparr>pending = [], log = [Asked ''Name: '']\<rparr>)"
    by (simp add: freeform_do_ask_def plim_ask_def emit_def)
  have s2: "?D \<lparr>pending = [], log = [Asked ''Name: '']\<rparr> =
      (Inr Retry, \<lparr>pending = [], log = [Asked ''Name: '', Asked ''Name: '']\<rparr>)"
    by (simp add: freeform_do_ask_def plim_ask_def emit_def)
  have h: "\<forall>i < nat 2. fst (?D (((snd \<circ> ?D) ^^ i) ?w)) = Inr Retry"
    by (simp only: two) (simp add: s1 s2)
  have n: "nat 2 = Suc (Suc 0)"
    by simp
  from ask_exhaustion [of 2 ?D ?w False, OF _ h]
  obtain w' where r: "ask_loop ?D 2 False 0 ?w = (Inr (Got (Single PNone)), 2, w')"
    and l: "log w' = log (((snd \<circ> ?D) ^^ nat 2) ?w) @ [Errored ''Too many invalid attempts.'', Divider]"
    by auto
  have "ask_loop ?D 2 False 0 ?w =
      (Inr (Got (Single PNone)), 2,
       emit Divider (emit (Errored ''Too many invalid attempts.'') (((snd \<circ> ?D) ^^ nat 2) ?w)))"
    using ask_loop_all_retry [of 0 2 "nat 2" ?D ?w False] h by simp
  with r have "w' = emit Divider (emit (Errored ''Too many invalid attempts.'') (((snd \<circ> ?D) ^^ nat 2) ?w))"
    by simp
  then have "w' = \<lparr>pending = [], log = [Asked ''Name: '', Asked ''Name: '', Errored ''Too many invalid attempts.'', Divider]\<rparr>"
    by (simp only: n funpow.simps comp_def id_def s1 s2 snd_conv) (simp add: emit_def)
  with r show ?thesis
    by simp
qed

text \<open>
  Claim C3 says a prompt with \<open>retries = 0\<close> asks the user once. It does not: the loop
  condition \<open>_attempts < retries\<close> is false at once, so the line \<open>Ann\<close> the user would type is
  never read, nothing is asked, and \<open>ask\<close> gives up.
\<close>

theorem zero_retries_counterexample:
  "freeform_ask \<lparr>prompt = ''Name'', retries = 0, confirm = False, attempts = 0, fmulti = False\<rparr>
      \<lparr>pending = [''Ann''], log = []\<rparr> =
     (Inr (Got (Single PNone)),
      \<lparr>prompt = ''Name'', retries = 0, confirm = False, attempts = 0, fmulti = False\<rparr>,
      \<lparr>pending = [''Ann''], log = [Errored ''Too many invalid attempts.'', Divider]\<rparr>)"
  by (simp add: freeform_ask_def ask_loop_exhausted emit_def)

text \<open>
  Claim C3, amended. For every prompt constructed with \<open>retries = 0\<close>, \<open>ask\<close> performs no
  attempt: the validation step is not run and the user is never asked; \<open>ask\<close> displays the
  error notice and returns the absent-value sentinel at once, with the counter still 0. Zero
  means zero attempts.
\<close>

theorem zero_retries_no_attempt:
  "ask_loop D 0 c 0 w =
     (Inr (Got (Single PNone)), 0, emit Divider (emit (Errored ''Too many invalid attempts.'') w))"
  by (rule ask_loop_exhausted) simp

text \<open>Claim C3, amended, for a free-form prompt with confirmation and a user ready to
  answer.\<close>

theorem zero_retries_no_attempt_witness:
  "ask_loop (freeform_do_ask \<lparr>prompt = ''Name'', retries = 0, confirm = True, attempts = 0, fmulti = False\<rparr>)
      0 True 0 \<lparr>pending = [''Ann'', ''y''], log = []\<rparr> =
     (Inr (Got (Single PNone)), 0,
      \<lparr>pending = [''Ann'', ''y''], log = [Errored ''Too many invalid attempts.'', Divider]\<rparr>)"
  using zero_retries_no_attempt
    [of "freeform_do_ask \<lparr>prompt = ''Name'', retries = 0, confirm = True, attempts = 0, fmulti = False\<rparr>"
      True "\<lparr>pending = [''Ann'', ''y''], log = []\<rparr>"]
  by (simp add: emit_def)

section \<open>Free-form single mode\<close>

text \<open>
  Claim C7 says a line that is empty after trimming yields the Retry Sentinel. The line of
  two spaces is empty after trimming, yet the free-form prompt returns it as the answer:
  \<open>raw or _Retry\<close> tests the raw line, and nothing in \<open>FreeformPrompt\<close> trims.
\<close>

theorem freeform_blank_counterexample:
  "py_strip ''  '' = [] \<and>
   fst (freeform_do_ask \<lparr>prompt = ''Name'', retries = 3, confirm = False, attempts = 0, fmulti = False\<rparr>
          \<lparr>pending = [''  ''], log = []\<rparr>) = Inr (Got (Single (PStr ''  ''))) \<and>
   fst (freeform_do_ask \<lparr>prompt = ''Name'', retries = 3, confirm = False, attempts = 0, fmulti = False\<rparr>
          \<lparr>pending = [''  ''], log = []\<rparr>) \<noteq> Inr Retry"
  by (simp add: py_strip_def isspace_def freeform_do_ask_def plim_ask_def)

text \<open>
  Claim C7, amended. In free-form single mode the empty line yields the Retry Sentinel (a
  free-form answer cannot be empty), and every non-empty line, also one that holds only
  whitespace, is returned verbatim.
\<close>

theorem freeform_single:
  assumes "\<not> fmulti p" and "pending w = raw # rest"
  shows "fst (freeform_do_ask p w) =
     (if raw = [] then Inr Retry else Inr (Got (Single (PStr raw))))"
  using assms by (simp add: freeform_do_ask_def plim_ask_def)

text \<open>Claim C7, amended, at a line with spaces around a name and at the empty line.\<close>

theorem freeform_single_witness:
  "fst (freeform_do_ask \<lparr>prompt = ''Name'', retries = 3, confirm = False, attempts = 0, fmulti = False\<rparr>
          \<lparr>pending = ['' Ann Lee ''], log = []\<rparr>) = Inr (Got (Single (PStr '' Ann Lee ''))) \<and>
   fst (freeform_do_ask \<lparr>prompt = ''Name'', retries = 3, confirm = False, attempts = 0, fmulti = False\<rparr>
          \<lparr>pending = [[], ''Ann''], log = []\<rparr>) = Inr Retry"
  using freeform_single
      [of "\<lparr>prompt = ''Name'', retries = 3, confirm = False, attempts = 0, fmulti = False\<rparr>"
        "\<lparr>pending = ['' Ann Lee ''], log = []\<rparr>" "'' Ann Lee ''" "[]"]
    freeform_single
      [of "\<lparr>prompt = ''Name'', retries = 3, confirm = False, attempts = 0, fmulti = False\<rparr>"
        "\<lparr>pending = [[], ''Ann''], log = []\<rparr>" "[]" "[''Ann'']"]
  by simp

section \<open>The router's contract\<close>

text \<open>Whatever \<open>ask\<close> raises comes from the validation step or from the confirmation; none
  of those errors is the router's own.\<close>

lemma ask_loop_error:
  "fst (ask_loop D r c a w) = Inl e \<Longrightarrow>
     (\<exists>w'. fst (D w') = Inl e) \<or> (\<exists>v w'. fst (do_confirm v w') = Inl e)"
proof (induction D r c a w rule: ask_loop.induct)
  case (1 D r c a w)
  note prem = "1.prems" [unfolded ask_loop.simps [of D r c a w]]
  show ?case
  proof (cases "a < r")
    case False
    with prem show ?thesis
      by simp
  next
    case lt: True
    obtain res w1 where d: "D w = (res, w1)"
      by (cases "D w")
    show ?thesis
    proof (cases res)
      case (Inl e')
      with lt d prem have "fst (D w) = Inl e"
        by simp
      then show ?thesis
        by blast
    next
      case (Inr ans)
      show ?thesis
      proof (cases ans)
        case Retry
        with lt d Inr prem have "fst (ask_loop D r c (a + 1) w1) = Inl e"
          by simp
        with "1.IH"(1) [OF lt d [symmetric] Inr Retry] show ?thesis
          by simp
      next
        case (Got v)
        show ?thesis
        proof (cases c)
          case False
          with lt d Inr Got prem show ?thesis
            by simp
        next
          case True
          obtain cres w2 where cf: "do_confirm v w1 = (cres, w2)"
            by (cases "do_confirm v w1")
          show ?thesis
          proof (cases cres)
            case (Inl e')
            with lt d Inr Got True cf prem have "fst (do_confirm v w1) = Inl e"
              by simp
            then show ?thesis
              by blast
          next
            case ok: (Inr ok)
            show ?thesis
            proof (cases ok)
              case True
              with lt d Inr Got \<open>c\<close> cf ok prem show ?thesis
                by simp
            next
              case False
              with lt d Inr Got \<open>c\<close> cf ok prem
              have "fst (ask_loop D r c (a + 1) w2) = Inl e"
                by simp
              with "1.IH"(2) [OF lt d [symmetric] Inr Got \<open>c\<close> cf [symmetric] ok] False
              show ?thesis
                by simp
            qed
          qed
        qed
      qed
    qed
  qed
qed

lemma as_strings_error:
  "as_strings i vs = Inl e \<Longrightarrow> \<exists>msg. e = TypeError (''sequence item '' @ msg)"
  by (induction i vs rule: as_strings.induct) (auto split: sum.splits)

lemma do_confirm_error:
  "fst (do_confirm v w) = Inl e \<Longrightarrow> \<exists>msg. e = TypeError (''sequence item '' @ msg)"
  by (auto simp: do_confirm_def Let_def split: reply.splits sum.splits prod.splits
      dest: as_strings_error)

lemma getitems_error: "getitems d ks = Inl e \<Longrightarrow> e = KeyError"
  by (induction ks arbitrary: e) (auto simp: getitem_def split: sum.splits option.splits)

lemma handle_empty_error: "handle_empty p = Inl e \<Longrightarrow> e = IndexError \<or> e = KeyError"
  by (auto simp: handle_empty_def getitem_def
      split: if_splits list.splits sum.splits option.splits dest: getitems_error)

lemma do_ask_error: "fst (do_ask p w) = Inl e \<Longrightarrow> e = IndexError \<or> e = KeyError"
  by (auto simp: do_ask_def Let_def split: prod.splits if_splits dest: handle_empty_error)

lemma freeform_do_ask_error: "fst (freeform_do_ask p w) \<noteq> Inl e"
  by (auto simp: freeform_do_ask_def split: prod.splits)

lemma options_error_distinct:
  "options_error \<noteq> IndexError" "options_error \<noteq> KeyError"
  "options_error \<noteq> TypeError (''sequence item '' @ msg)"
  by (simp_all add: options_error_def)

lemma ask_new_option_no_options_error:
  "fst (ask_new_option (new_OptionPrompt pr r c opts d cs m ac disp) w) \<noteq> Inl options_error"
proof
  assume e: "fst (ask_new_option (new_OptionPrompt pr r c opts d cs m ac disp) w) = Inl options_error"
  from new_OptionPrompt_fields [of pr r c opts d cs m ac disp]
  obtain p where p: "new_OptionPrompt pr r c opts d cs m ac disp = Inr p"
    by blast
  with e have "fst (ask_loop (do_ask p) (retries p) (confirm p) (attempts p) w) = Inl options_error"
    by (simp add: ask_new_option_def ask_def split: prod.splits)
  then show False
    using options_error_distinct by (auto dest!: ask_loop_error dest: do_ask_error do_confirm_error)
qed

lemma ask_new_freeform_no_options_error:
  "fst (ask_new_freeform pr m r c w) \<noteq> Inl options_error"
proof
  assume "fst (ask_new_freeform pr m r c w) = Inl options_error"
  then have "fst (ask_loop
      (freeform_do_ask \<lparr>prompt = pr, retries = r, confirm = c, attempts = 0, fmulti = m\<rparr>)
      r c 0 w) = Inl options_error"
    by (simp add: ask_new_freeform_def freeform_ask_def split: prod.splits)
  then show False
    using options_error_distinct
    by (auto dest!: ask_loop_error dest: do_confirm_error simp: freeform_do_ask_error)
qed

text \<open>
  Claim C6 says the router raises whenever \<open>options\<close> is supplied and is neither a sequence
  nor a mapping, and never for a sequence. With \<open>freeform = "single"\<close> the options are not
  looked at: the integer 5 raises nothing and the user's line is returned. And a tuple, an
  ordered sequence, is rejected when no free-form mode is requested.
\<close>

theorem router_counterexample:
  "fst (interactive_prompt ''Name'' (RInt 5) DNone False False ''single'' False 3 False ''inline''
          \<lparr>pending = [''Ann''], log = []\<rparr>) = Inr (Got (Single (PStr ''Ann''))) \<and>
   fst (interactive_prompt ''Pick'' (RTuple [''a'', ''b'']) DNone False False ''none'' False 3 False
          ''inline'' \<lparr>pending = [''a''], log = []\<rparr>) = Inl options_error"
  by (simp add: interactive_prompt_def ask_new_freeform_def freeform_ask_def
      ask_loop.simps [of _ 3 False 0] freeform_do_ask_def plim_ask_def)

text \<open>
  Claim C6, amended. The router raises its input-contract violation if and only if
  \<open>freeform\<close> is neither \<open>"single"\<close> nor \<open>"multi"\<close> and \<open>options\<close> is supplied and is neither a
  list nor a dict. When \<open>freeform\<close> is \<open>"single"\<close> or \<open>"multi"\<close> it dispatches to Freeform
  Collection whatever \<open>options\<close> is; otherwise, for every supplied list or dict, it dispatches
  to Option Selection: it constructs the \<open>OptionPrompt\<close> from its arguments and returns or
  raises whatever that construction and its \<open>ask\<close> return or raise.
\<close>

theorem router_contract:
  "(fst (interactive_prompt pr opts d m ac freeform c r cs disp w) = Inl options_error \<longleftrightarrow>
      freeform \<noteq> ''single'' \<and> freeform \<noteq> ''multi'' \<and>
      opts \<noteq> RNone \<and> (\<forall>xs. opts \<noteq> RList xs) \<and> (\<forall>od. opts \<noteq> RDict od)) \<and>
   (freeform = ''single'' \<or> freeform = ''multi'' \<longrightarrow>
      interactive_prompt pr opts d m ac freeform c r cs disp w =
        ask_new_freeform pr (freeform = ''multi'') r c w) \<and>
   (freeform \<noteq> ''single'' \<and> freeform \<noteq> ''multi'' \<longrightarrow>
      (\<forall>xs. opts = RList xs \<longrightarrow>
         interactive_prompt pr opts d m ac freeform c r cs disp w =
           ask_new_option (new_OptionPrompt pr r c (OptList xs) d cs m ac disp) w) \<and>
      (\<forall>od. opts = RDict od \<longrightarrow>
         interactive_prompt pr opts d m ac freeform c r cs disp w =
           ask_new_option (new_OptionPrompt pr r c (OptDict od) d cs m ac disp) w))"
proof (intro conjI)
  show "fst (interactive_prompt pr opts d m ac freeform c r cs disp w) = Inl options_error \<longleftrightarrow>
      freeform \<noteq> ''single'' \<and> freeform \<noteq> ''multi'' \<and>
      opts \<noteq> RNone \<and> (\<forall>xs. opts \<noteq> RList xs) \<and> (\<forall>od. opts \<noteq> RDict od)"
    by (cases opts)
      (simp_all add: interactive_prompt_def ask_new_freeform_no_options_error
        ask_new_option_no_options_error)
next
  show "freeform = ''single'' \<or> freeform = ''multi'' \<longrightarrow>
      interactive_prompt pr opts d m ac freeform c r cs disp w =
        ask_new_freeform pr (freeform = ''multi'') r c w"
    by (simp add: interactive_prompt_def)
next
  show "freeform \<noteq> ''single'' \<and> freeform \<noteq> ''multi'' \<longrightarrow>
      (\<forall>xs. opts = RList xs \<longrightarrow>
         interactive_prompt pr opts d m ac freeform c r cs disp w =
           ask_new_option (new_OptionPrompt pr r c (OptList xs) d cs m ac disp) w) \<and>
      (\<forall>od. opts = RDict od \<longrightarrow>
         interactive_prompt pr opts d m ac freeform c r cs disp w =
           ask_new_option (new_OptionPrompt pr r c (OptDict od) d cs m ac disp) w)"
    by (simp add: interactive_prompt_def)
qed

text \<open>Claim C6, amended, at the integer 5 with and without a free-form mode and at a list
  of two options.\<close>

theorem router_contract_witness:
  "fst (interactive_prompt ''Pick'' (RInt 5) DNone False False ''none'' False 3 False ''inline''
          \<lparr>pending = [''a''], log = []\<rparr>) = Inl options_error \<and>
   fst (interactive_prompt ''Pick'' (RList [''a'', ''b'']) DNone False False ''none'' False 3 False
          ''inline'' \<lparr>pending = [''a''], log = []\<rparr>) \<noteq> Inl options_error \<and>
   interactive_prompt ''Pick'' (RInt 5) DNone False False ''multi'' False 3 False ''inline''
          \<lparr>pending = [''a''], log = []\<rparr> =
     ask_new_freeform ''Pick'' True 3 False \<lparr>pending = [''a''], log = []\<rparr> \<and>
   interactive_prompt ''Pick'' (RList [''a'', ''b'']) DNone False False ''none'' False 3 False
          ''inline'' \<lparr>pending = [''a''], log = []\<rparr> =
     ask_new_option
       (new_OptionPrompt ''Pick'' 3 False (OptList [''a'', ''b'']) DNone False False False ''inline'')
       \<lparr>pending = [''a''], log = []\<rparr>"
proof -
  note number = router_contract [of "''Pick''" "RInt 5" DNone False False "''none''" False 3 False
      "''inline''" "\<lparr>pending = [''a''], log = []\<rparr>"]
  note listed = router_contract [of "''Pick''" "RList [''a'', ''b'']" DNone False False "''none''"
      False 3 False "''inline''" "\<lparr>pending = [''a''], log = []\<rparr>"]
  note free = router_contract [of "''Pick''" "RInt 5" DNone False False "''multi''" False 3 False
      "''inline''" "\<lparr>pending = [''a''], log = []\<rparr>"]
  from number
  have "fst (interactive_prompt ''Pick'' (RInt 5) DNone False False ''none'' False 3 False ''inline''
          \<lparr>pending = [''a''], log = []\<rparr>) = Inl options_error"
    by simp
  moreover from listed [THEN conjunct1]
  have "fst (interactive_prompt ''Pick'' (RList [''a'', ''b'']) DNone False False ''none'' False 3
          False ''inline'' \<lparr>pending = [''a''], log = []\<rparr>) \<noteq> Inl options_error"
    by simp
  moreover from free [THEN conjunct2, THEN conjunct1]
  have "interactive_prompt ''Pick'' (RInt 5) DNone False False ''multi'' False 3 False ''inline''
          \<lparr>pending = [''a''], log = []\<rparr> =
     ask_new_freeform ''Pick'' True 3 False \<lparr>pending = [''a''], log = []\<rparr>"
    by simp
  moreover from listed [THEN conjunct2, THEN conjunct2]
  have "interactive_prompt ''Pick'' (RList [''a'', ''b'']) DNone False False ''none'' False 3 False
          ''inline'' \<lparr>pending = [''a''], log = []\<rparr> =
     ask_new_option
       (new_OptionPrompt ''Pick'' 3 False (OptList [''a'', ''b'']) DNone False False False ''inline'')
       \<lparr>pending = [''a''], log = []\<rparr>"
    by simp
  ultimately show ?thesis
    by (intro conjI)
qed

section \<open>Defaults\<close>

lemma new_OptionPrompt_result:
  assumes "new_OptionPrompt pr r c opts d cs m ac disp = Inr p"
  shows "prompt p = pr" "retries p = r" "confirm p = c" "attempts p = 0"
    "options p = opts" "default p = d" "case_sensitive p = cs" "multi p = m"
    "allow_custom p = ac" "display p = disp"
    "option_dict p = option_dict_of opts"
    "display_keys p = dict_keys (option_dict_of opts)"
    "value_map p = build_value_map cs (option_dict_of opts) []"
    "index_map p = index_items (option_dict_of opts)"
    "default_keys p = resolve_default_keys p d"
  using new_OptionPrompt_fields [of pr r c opts d cs m ac disp] assms by auto

lemma pending_render_menu_lines: "pending (render_menu_lines dks xs w) = pending w"
  by (induction xs arbitrary: w) (auto simp: pending_emit Let_def)

lemma pending_render_prompt: "pending (snd (render_prompt p w)) = pending w"
  by (simp add: render_prompt_def Let_def pending_render_menu_lines)

lemma do_ask_empty_line:
  assumes "pending w = [] \<or> (\<exists>rest. pending w = [] # rest)"
  shows "fst (do_ask p w) = handle_empty p"
proof -
  obtain msg w1 where r: "render_prompt p w = (msg, w1)"
    by (cases "render_prompt p w")
  with pending_render_prompt [of p w] have "pending w1 = pending w"
    by simp
  with assms have "fst (plim_ask msg w1) = []"
    by (auto simp: plim_ask_def)
  with r show ?thesis
    by (auto simp: do_ask_def split: prod.splits)
qed

lemma fst_ask: "fst (ask p w) = fst (ask_loop (do_ask p) (retries p) (confirm p) (attempts p) w)"
  by (simp add: ask_def split: prod.splits)

lemma ask_loop_raises:
  "a < r \<Longrightarrow> fst (D w) = Inl e \<Longrightarrow> fst (ask_loop D r c a w) = Inl e"
  by (subst ask_loop.simps) (auto split: prod.splits)

text \<open>
  Claim C2, as the code has it. For every single-select Option Selection constructed with
  a default spec that matches no catalog entry, construction succeeds with no default key,
  but empty input does not give the absent-value result: \<open>_handle_empty\<close> tests
  \<open>self.default is None\<close>, not the resolved keys, and takes \<open>self._default_keys[0]\<close> of the
  empty list. The validation step raises \<open>IndexError\<close> on an empty line, and so does \<open>ask\<close>
  when it makes an attempt at all.
\<close>

theorem unmatched_default_raises:
  assumes "new_OptionPrompt pr r c opts (DItem x) cs False ac disp = Inr p"
    and "match p x = None"
  shows "default_keys p = [] \<and> handle_empty p = Inl IndexError \<and>
     (\<forall>w. pending w = [] \<or> (\<exists>rest. pending w = [] # rest) \<longrightarrow>
        fst (do_ask p w) = Inl IndexError \<and> (0 < r \<longrightarrow> fst (ask p w) = Inl IndexError))"
proof -
  note f = new_OptionPrompt_result [OF assms(1)]
  have dk: "default_keys p = []"
    using f(15) assms(2) by (simp add: resolve_default_keys_def keep_match_def)
  have he: "handle_empty p = Inl IndexError"
    using f(6,8) dk by (simp add: handle_empty_def)
  have "fst (do_ask p w) = Inl IndexError \<and> (0 < r \<longrightarrow> fst (ask p w) = Inl IndexError)"
    if "pending w = [] \<or> (\<exists>rest. pending w = [] # rest)" for w
  proof -
    have d: "fst (do_ask p w) = Inl IndexError"
      using do_ask_empty_line [OF that, of p] he by simp
    have "fst (ask p w) = Inl IndexError" if "0 < r"
      using ask_loop_raises [of 0 r "do_ask p" w IndexError c] d that f(2,3,4)
      by (simp add: fst_ask)
    with d show ?thesis
      by simp
  qed
  with dk he show ?thesis
    by blast
qed

lemma seq_ab: "option_dict_of (OptList [''a'', ''b'']) = [(''a'', PStr ''a''), (''b'', PStr ''b'')]"
  by (simp add: option_dict_of_def dict_of_seq_def)

text \<open>The failing input of claim C2: the options \<open>a\<close>, \<open>b\<close> with the default \<open>zzz\<close>, and a
  user who sends an empty line.\<close>

theorem unmatched_default_raises_witness:
  "\<exists>p. new_OptionPrompt ''Pick'' 3 False (OptList [''a'', ''b'']) (DItem (DStr ''zzz''))
          False False False ''inline'' = Inr p \<and>
     default_keys p = [] \<and>
     fst (do_ask p \<lparr>pending = [[]], log = []\<rparr>) = Inl IndexError \<and>
     fst (ask p \<lparr>pending = [[]], log = []\<rparr>) = Inl IndexError"
proof -
  from new_OptionPrompt_fields [of "''Pick''" 3 False "OptList [''a'', ''b'']"
      "DItem (DStr ''zzz'')" False False False "''inline''"]
  obtain p where p: "new_OptionPrompt ''Pick'' 3 False (OptList [''a'', ''b''])
      (DItem (DStr ''zzz'')) False False False ''inline'' = Inr p"
    by blast
  note f = new_OptionPrompt_result [OF p]
  have m: "match p (DStr ''zzz'') = None"
    using f(7,11) by (simp add: match_def seq_ab norm_key_def norm_val_def py_lower_def)
  from unmatched_default_raises [OF p m] p show ?thesis
    by (intro exI [of _ p]) simp
qed

lemma seq_fruit:
  "option_dict_of (OptList [''Apple'', ''Banana'', ''Cherry'']) =
     [(''Apple'', PStr ''Apple''), (''Banana'', PStr ''Banana''), (''Cherry'', PStr ''Cherry'')]"
  by (simp add: option_dict_of_def dict_of_seq_def)

text \<open>
  Claim C5 says an integer default \<open>d\<close> with \<open>1 \<le> d \<le> N\<close> resolves to the key at 1-based
  position \<open>d\<close>. Over Apple, Banana, Cherry the default 1 resolves to Banana, not Apple, and
  the default 3 resolves to no key at all.
\<close>

theorem default_index_counterexample:
  "(\<exists>p. new_OptionPrompt ''Fruit?'' 3 False (OptList [''Apple'', ''Banana'', ''Cherry''])
          (DItem (DInt 1)) False False False ''inline'' = Inr p \<and>
        display_keys p = [''Apple'', ''Banana'', ''Cherry''] \<and> default_keys p = [''Banana'']) \<and>
   (\<exists>p. new_OptionPrompt ''Fruit?'' 3 False (OptList [''Apple'', ''Banana'', ''Cherry''])
          (DItem (DInt 3)) False False False ''inline'' = Inr p \<and>
        display_keys p = [''Apple'', ''Banana'', ''Cherry''] \<and> default_keys p = [])"
proof -
  from new_OptionPrompt_fields [of "''Fruit?''" 3 False "OptList [''Apple'', ''Banana'', ''Cherry'']"
      "DItem (DInt 1)" False False False "''inline''"]
  obtain p where p: "new_OptionPrompt ''Fruit?'' 3 False (OptList [''Apple'', ''Banana'', ''Cherry''])
      (DItem (DInt 1)) False False False ''inline'' = Inr p"
    by blast
  note f = new_OptionPrompt_result [OF p]
  from f(12) have k: "display_keys p = [''Apple'', ''Banana'', ''Cherry'']"
    by (simp add: seq_fruit dict_keys_def)
  then have "default_keys p = [''Banana'']"
    using f(15) by (simp add: resolve_default_keys_def match_def keep_match_def)
  with p k have one: "\<exists>p. new_OptionPrompt ''Fruit?'' 3 False
      (OptList [''Apple'', ''Banana'', ''Cherry'']) (DItem (DInt 1)) False False False ''inline''
        = Inr p \<and>
      display_keys p = [''Apple'', ''Banana'', ''Cherry''] \<and> default_keys p = [''Banana'']"
    by blast
  from new_OptionPrompt_fields [of "''Fruit?''" 3 False "OptList [''Apple'', ''Banana'', ''Cherry'']"
      "DItem (DInt 3)" False False False "''inline''"]
  obtain q where q: "new_OptionPrompt ''Fruit?'' 3 False (OptList [''Apple'', ''Banana'', ''Cherry''])
      (DItem (DInt 3)) False False False ''inline'' = Inr q"
    by blast
  note g = new_OptionPrompt_result [OF q]
  from g(12) have k': "display_keys q = [''Apple'', ''Banana'', ''Cherry'']"
    by (simp add: seq_fruit dict_keys_def)
  then have "default_keys q = []"
    using g(15) by (simp add: resolve_default_keys_def match_def keep_match_def)
  with q k' have "\<exists>p. new_OptionPrompt ''Fruit?'' 3 False
      (OptList [''Apple'', ''Banana'', ''Cherry'']) (DItem (DInt 3)) False False False ''inline''
        = Inr p \<and>
      display_keys p = [''Apple'', ''Banana'', ''Cherry''] \<and> default_keys p = []"
    by blast
  with one show ?thesis
    by blast
qed

text \<open>
  Claim C5, amended. For every Option Selection over a catalog of \<open>N\<close> keys and every
  integer default spec \<open>d\<close> with \<open>0 \<le> d < N\<close>, the default resolves to the catalog key at
  0-based position \<open>d\<close>, that is at 1-based position \<open>d + 1\<close> (for a key that is not the empty
  string); \<open>d = N\<close> resolves to no default. Numeric defaults are 0-based, unlike the index
  map.
\<close>

theorem default_index_zero_based:
  "\<exists>p. new_OptionPrompt pr r c opts (DItem (DInt i)) cs m ac disp = Inr p \<and>
     (0 \<le> i \<and> i < int (length (display_keys p)) \<and> display_keys p ! nat i \<noteq> [] \<longrightarrow>
        default_keys p = [display_keys p ! nat i]) \<and>
     (i = int (length (display_keys p)) \<longrightarrow> default_keys p = [])"
proof -
  from new_OptionPrompt_fields [of pr r c opts "DItem (DInt i)" cs m ac disp]
  obtain p where p: "new_OptionPrompt pr r c opts (DItem (DInt i)) cs m ac disp = Inr p"
    by blast
  note f = new_OptionPrompt_result [OF p]
  have "default_keys p = [display_keys p ! nat i]"
    if "0 \<le> i \<and> i < int (length (display_keys p)) \<and> display_keys p ! nat i \<noteq> []"
    using that f(15) by (simp add: resolve_default_keys_def match_def keep_match_def)
  moreover have "default_keys p = []" if "i = int (length (display_keys p))"
    using that f(15) by (simp add: resolve_default_keys_def match_def keep_match_def)
  ultimately show ?thesis
    using p by blast
qed

text \<open>Claim C5, amended, at the default 2 over Apple, Banana, Cherry.\<close>

theorem default_index_zero_based_witness:
  "\<exists>p. new_OptionPrompt ''Fruit?'' 3 False (OptList [''Apple'', ''Banana'', ''Cherry''])
          (DItem (DInt 2)) False False False ''inline'' = Inr p \<and>
     display_keys p = [''Apple'', ''Banana'', ''Cherry''] \<and> default_keys p = [''Cherry'']"
proof -
  from default_index_zero_based [of "''Fruit?''" 3 False "OptList [''Apple'', ''Banana'', ''Cherry'']"
      2 False False False "''inline''"]
  obtain p where p: "new_OptionPrompt ''Fruit?'' 3 False (OptList [''Apple'', ''Banana'', ''Cherry''])
      (DItem (DInt 2)) False False False ''inline'' = Inr p"
    and d: "0 \<le> (2::int) \<and> 2 < int (length (display_keys p)) \<and> display_keys p ! nat 2 \<noteq> [] \<longrightarrow>
        default_keys p = [display_keys p ! nat 2]"
    by blast
  note f = new_OptionPrompt_result [OF p]
  from f(12) have k: "display_keys p = [''Apple'', ''Banana'', ''Cherry'']"
    by (simp add: seq_fruit dict_keys_def)
  have n: "nat 2 = Suc (Suc 0)"
    by simp
  from d k have "default_keys p = [''Cherry'']"
    by (simp add: n)
  with p k show ?thesis
    by blast
qed

section \<open>Multi-select shortcuts\<close>

lemma multi_loop_known:
  "known_token p x \<Longrightarrow>
     \<exists>v. multi_loop p (x # rest) selected unknown = multi_loop p rest (selected @ [v]) unknown"
  by (cases "map_of (index_map p) x"; cases "map_of (value_map p) (PStr x)")
    (auto simp: known_token_def dict_in_def)

lemma multi_loop_custom:
  "\<not> known_token p x \<Longrightarrow> allow_custom p \<Longrightarrow> x \<noteq> ''all'' \<Longrightarrow> x \<noteq> ''none'' \<Longrightarrow>
     multi_loop p (x # rest) selected unknown = multi_loop p rest (selected @ [PStr x]) unknown"
  by (simp add: known_token_def dict_in_def)

lemma multi_loop_unknown:
  "\<not> known_token p x \<Longrightarrow> \<not> allow_custom p \<Longrightarrow> x \<noteq> ''all'' \<Longrightarrow> x \<noteq> ''none'' \<Longrightarrow>
     multi_loop p (x # rest) selected unknown = multi_loop p rest selected (unknown @ [x])"
  by (simp add: known_token_def dict_in_def)

lemma multi_loop_stop:
  "\<not> known_token p t \<Longrightarrow> t = ''all'' \<or> t = ''none'' \<Longrightarrow>
     multi_loop p (t # post) selected unknown =
       ((if t = ''all'' then dict_values (option_dict p) else []), unknown)"
  by (simp add: known_token_def dict_in_def)

lemma multi_loop_shortcut:
  assumes "\<forall>x \<in> set pre. known_token p x \<or> (x \<noteq> ''all'' \<and> x \<noteq> ''none'')"
    and "t = ''all'' \<or> t = ''none''" and "\<not> known_token p t"
  shows "multi_loop p (pre @ t # post) selected unknown =
     ((if t = ''all'' then dict_values (option_dict p) else []),
      unknown @ (if allow_custom p then [] else filter (\<lambda>x. \<not> known_token p x) pre))"
  using assms(1)
proof (induction pre arbitrary: selected unknown)
  case Nil
  from multi_loop_stop [OF assms(3,2), of post selected unknown] show ?case
    by simp
next
  case (Cons x pre)
  have x: "known_token p x \<or> (x \<noteq> ''all'' \<and> x \<noteq> ''none'')"
    using Cons.prems by (metis list.set_intros(1))
  have rest: "\<forall>x \<in> set pre. known_token p x \<or> (x \<noteq> ''all'' \<and> x \<noteq> ''none'')"
    using Cons.prems by (metis list.set_intros(2))
  note IH = Cons.IH [OF rest]
  show ?case
  proof (cases "known_token p x")
    case True
    from multi_loop_known [OF True, of "pre @ t # post" selected unknown]
    obtain v where "multi_loop p (x # pre @ t # post) selected unknown =
        multi_loop p (pre @ t # post) (selected @ [v]) unknown"
      by blast
    with IH [of "selected @ [v]" unknown] True show ?thesis
      by (simp only: append_Cons filter.simps not_True_eq_False if_False)
  next
    case False
    with x have ne: "x \<noteq> ''all''" "x \<noteq> ''none''"
      by blast+
    show ?thesis
    proof (cases "allow_custom p")
      case True
      from multi_loop_custom [OF False True ne, of "pre @ t # post" selected unknown]
        IH [of "selected @ [PStr x]" unknown] True
      show ?thesis
        by (simp only: append_Cons if_True)
    next
      case no: False
      from multi_loop_unknown [OF False no ne, of "pre @ t # post" selected unknown]
        IH [of selected "unknown @ [x]"] no False
      show ?thesis
        by (simp only: append_Cons filter.simps if_False if_True append_assoc append_Nil
            not_False_eq_True)
    qed
  qed
qed

text \<open>
  Claim C4, amended. In multi-select parsing the tokens are read from left to right up to
  the first token that is the literal \<open>all\<close> or \<open>none\<close> and is not itself an index, key or
  alias of the catalog. If custom values are allowed, or every token before it is known to
  the catalog, the result is the full list of catalog values for \<open>all\<close> and the empty list for
  \<open>none\<close>: the tokens accumulated earlier are overridden and the tokens after it are not
  read. If custom values are not allowed and a token before it is unknown, the whole input
  is rejected: a warning lists the unknown tokens and the Retry Sentinel is returned.
\<close>

theorem multi_shortcut:
  assumes "multi p"
    and "tokens (if case_sensitive p then raw else py_lower raw) = pre @ t # post"
    and "t = ''all'' \<or> t = ''none''" and "\<not> known_token p t"
    and "\<forall>x \<in> set pre. known_token p x \<or> (x \<noteq> ''all'' \<and> x \<noteq> ''none'')"
  shows "parse_input p raw w =
     (if allow_custom p \<or> (\<forall>x \<in> set pre. known_token p x)
      then (Got (Multi (if t = ''all'' then dict_values (option_dict p) else [])), w)
      else (Retry,
            emit (Warned (''Invalid input: ''
                          @ py_join '', '' (filter (\<lambda>x. \<not> known_token p x) pre))) w))"
proof -
  let ?unknown = "if allow_custom p then [] else filter (\<lambda>x. \<not> known_token p x) pre"
  have loop: "multi_loop p (tokens (if case_sensitive p then raw else py_lower raw)) [] [] =
      ((if t = ''all'' then dict_values (option_dict p) else []), ?unknown)"
    using multi_loop_shortcut [OF assms(5,3,4), of post "[]" "[]"]
    by (simp only: assms(2) append_Nil)
  have empty: "?unknown = [] \<longleftrightarrow> allow_custom p \<or> (\<forall>x \<in> set pre. known_token p x)"
    by (simp add: filter_empty_conv)
  show ?thesis
  proof (cases "allow_custom p \<or> (\<forall>x \<in> set pre. known_token p x)")
    case True
    with empty have "?unknown = []"
      by blast
    with loop have "multi_loop p (tokens (if case_sensitive p then raw else py_lower raw)) [] [] =
        ((if t = ''all'' then dict_values (option_dict p) else []), [])"
      by (simp only:)
    with assms(1) True show ?thesis
      by (simp add: parse_input_def Let_def del: multi_loop.simps)
  next
    case False
    with empty have ne: "?unknown \<noteq> []"
      by blast
    from False have u: "?unknown = filter (\<lambda>x. \<not> known_token p x) pre"
      by simp
    from loop u have "multi_loop p (tokens (if case_sensitive p then raw else py_lower raw)) [] [] =
        ((if t = ''all'' then dict_values (option_dict p) else []),
         filter (\<lambda>x. \<not> known_token p x) pre)"
      by (simp only:)
    with assms(1) False ne u show ?thesis
      by (simp add: parse_input_def Let_def del: multi_loop.simps)
  qed
qed

lemma fruit_index_items:
  "index_items [(''Apple'', PInt 1), (''Banana'', PInt 2), (''Cherry'', PInt 3)] =
     [(''1'', PInt 1), (''2'', PInt 2), (''3'', PInt 3)]"
  by (simp add: index_items_def dict_keys_def enumerate_eq_zip str_nat.simps digit_char_def upt_rec)

lemma fruit_value_map:
  "build_value_map False [(''Apple'', PInt 1), (''Banana'', PInt 2), (''Cherry'', PInt 3)] [] =
     [(PStr ''apple'', PInt 1), (PStr ''1'', PInt 1), (PStr ''banana'', PInt 2),
      (PStr ''2'', PInt 2), (PStr ''cherry'', PInt 3), (PStr ''3'', PInt 3)]"
  by code_simp

lemma fruit_prompt:
  "\<exists>p. new_OptionPrompt ''Fruit?'' 3 False
          (OptDict [(''Apple'', PInt 1), (''Banana'', PInt 2), (''Cherry'', PInt 3)])
          DNone False True False ''inline'' = Inr p \<and>
     multi p \<and> \<not> case_sensitive p \<and> \<not> allow_custom p \<and>
     option_dict p = [(''Apple'', PInt 1), (''Banana'', PInt 2), (''Cherry'', PInt 3)] \<and>
     index_map p = [(''1'', PInt 1), (''2'', PInt 2), (''3'', PInt 3)] \<and>
     value_map p = [(PStr ''apple'', PInt 1), (PStr ''1'', PInt 1), (PStr ''banana'', PInt 2),
                    (PStr ''2'', PInt 2), (PStr ''cherry'', PInt 3), (PStr ''3'', PInt 3)]"
  using new_OptionPrompt_fields [of "''Fruit?''" 3 False
      "OptDict [(''Apple'', PInt 1), (''Banana'', PInt 2), (''Cherry'', PInt 3)]"
      DNone False True False "''inline''"]
  by (auto simp: option_dict_of_def fruit_index_items fruit_value_map
      simp del: build_value_map.simps)

lemma named_all_prompt:
  "\<exists>p. new_OptionPrompt ''Which?'' 3 False (OptList [''all'', ''b'']) DNone False True False
          ''inline'' = Inr p \<and>
     multi p \<and> \<not> case_sensitive p \<and> \<not> allow_custom p \<and>
     option_dict p = [(''all'', PStr ''all''), (''b'', PStr ''b'')] \<and>
     index_map p = [(''1'', PStr ''all''), (''2'', PStr ''b'')] \<and>
     value_map p = [(PStr ''all'', PStr ''all''), (PStr ''b'', PStr ''b'')]"
proof -
  have od: "option_dict_of (OptList [''all'', ''b'']) = [(''all'', PStr ''all''), (''b'', PStr ''b'')]"
    by (simp add: option_dict_of_def dict_of_seq_def)
  have im: "index_items [(''all'', PStr ''all''), (''b'', PStr ''b'')] =
      [(''1'', PStr ''all''), (''2'', PStr ''b'')]"
    by (simp add: index_items_def dict_keys_def enumerate_eq_zip str_nat.simps digit_char_def upt_rec)
  have vm: "build_value_map False [(''all'', PStr ''all''), (''b'', PStr ''b'')] [] =
      [(PStr ''all'', PStr ''all''), (PStr ''b'', PStr ''b'')]"
    by code_simp
  from new_OptionPrompt_fields [of "''Which?''" 3 False "OptList [''all'', ''b'']"
      DNone False True False "''inline''"]
  show ?thesis
    by (auto simp: od im vm simp del: build_value_map.simps)
qed

text \<open>
  Claim C4 says an \<open>all\<close> token anywhere in the list yields every catalog value, whatever
  the other tokens are. Over Apple, Banana, Cherry the input \<open>bogus, all\<close> holds the token
  \<open>all\<close>, yet the unknown token before it makes the whole input invalid: the answer is the
  Retry Sentinel with a warning, not the three values. And over the options \<open>all\<close> and \<open>b\<close>
  the input \<open>all\<close> names the first option and selects it alone.
\<close>

theorem multi_shortcut_counterexample:
  "(\<exists>p. new_OptionPrompt ''Fruit?'' 3 False
           (OptDict [(''Apple'', PInt 1), (''Banana'', PInt 2), (''Cherry'', PInt 3)])
           DNone False True False ''inline'' = Inr p \<and>
        tokens (py_lower ''bogus, all'') = [''bogus'', ''all''] \<and>
        dict_values (option_dict p) = [PInt 1, PInt 2, PInt 3] \<and>
        parse_input p ''bogus, all'' \<lparr>pending = [], log = []\<rparr> =
          (Retry, \<lparr>pending = [], log = [Warned ''Invalid input: bogus'']\<rparr>)) \<and>
   (\<exists>p. new_OptionPrompt ''Which?'' 3 False (OptList [''all'', ''b'']) DNone False True False
           ''inline'' = Inr p \<and>
        tokens (py_lower ''all'') = [''all''] \<and>
        dict_values (option_dict p) = [PStr ''all'', PStr ''b''] \<and>
        parse_input p ''all'' \<lparr>pending = [], log = []\<rparr> =
          (Got (Multi [PStr ''all'']), \<lparr>pending = [], log = []\<rparr>))"
proof -
  from fruit_prompt obtain p where p: "new_OptionPrompt ''Fruit?'' 3 False
        (OptDict [(''Apple'', PInt 1), (''Banana'', PInt 2), (''Cherry'', PInt 3)])
        DNone False True False ''inline'' = Inr p"
    and f: "multi p" "\<not> case_sensitive p" "\<not> allow_custom p"
      "option_dict p = [(''Apple'', PInt 1), (''Banana'', PInt 2), (''Cherry'', PInt 3)]"
      "index_map p = [(''1'', PInt 1), (''2'', PInt 2), (''3'', PInt 3)]"
      "value_map p = [(PStr ''apple'', PInt 1), (PStr ''1'', PInt 1), (PStr ''banana'', PInt 2),
                      (PStr ''2'', PInt 2), (PStr ''cherry'', PInt 3), (PStr ''3'', PInt 3)]"
    by blast
  have t: "tokens (py_lower ''bogus, all'') = [''bogus'', ''all'']"
    by code_simp
  have "parse_input p ''bogus, all'' \<lparr>pending = [], log = []\<rparr> =
      (Retry, \<lparr>pending = [], log = [Warned ''Invalid input: bogus'']\<rparr>)"
    using f by (simp add: parse_input_def t emit_def)
  with p t f(4) have one: "\<exists>p. new_OptionPrompt ''Fruit?'' 3 False
        (OptDict [(''Apple'', PInt 1), (''Banana'', PInt 2), (''Cherry'', PInt 3)])
        DNone False True False ''inline'' = Inr p \<and>
      tokens (py_lower ''bogus, all'') = [''bogus'', ''all''] \<and>
      dict_values (option_dict p) = [PInt 1, PInt 2, PInt 3] \<and>
      parse_input p ''bogus, all'' \<lparr>pending = [], log = []\<rparr> =
        (Retry, \<lparr>pending = [], log = [Warned ''Invalid input: bogus'']\<rparr>)"
    by (intro exI [of _ p]) (simp add: dict_values_def)
  from named_all_prompt obtain q where q: "new_OptionPrompt ''Which?'' 3 False
        (OptList [''all'', ''b'']) DNone False True False ''inline'' = Inr q"
    and g: "multi q" "\<not> case_sensitive q" "\<not> allow_custom q"
      "option_dict q = [(''all'', PStr ''all''), (''b'', PStr ''b'')]"
      "index_map q = [(''1'', PStr ''all''), (''2'', PStr ''b'')]"
      "value_map q = [(PStr ''all'', PStr ''all''), (PStr ''b'', PStr ''b'')]"
    by blast
  have t': "tokens (py_lower ''all'') = [''all'']"
    by code_simp
  have "parse_input q ''all'' \<lparr>pending = [], log = []\<rparr> =
      (Got (Multi [PStr ''all'']), \<lparr>pending = [], log = []\<rparr>)"
    using g by (simp add: parse_input_def t')
  with q t' g(4) have "\<exists>p. new_OptionPrompt ''Which?'' 3 False (OptList [''all'', ''b'']) DNone
        False True False ''inline'' = Inr p \<and>
      tokens (py_lower ''all'') = [''all''] \<and>
      dict_values (option_dict p) = [PStr ''all'', PStr ''b''] \<and>
      parse_input p ''all'' \<lparr>pending = [], log = []\<rparr> =
        (Got (Multi [PStr ''all'']), \<lparr>pending = [], log = []\<rparr>)"
    by (intro exI [of _ q]) (simp add: dict_values_def)
  with one show ?thesis
    by (rule conjI)
qed

text \<open>Claim C4, amended, over Apple, Banana, Cherry: \<open>all\<close> after two known tokens and
  before an unknown one gives the three values; \<open>none\<close> after an unknown token, with custom
  values not allowed, gives the Retry Sentinel and the warning.\<close>

theorem multi_shortcut_witness:
  "\<exists>p. new_OptionPrompt ''Fruit?'' 3 False
          (OptDict [(''Apple'', PInt 1), (''Banana'', PInt 2), (''Cherry'', PInt 3)])
          DNone False True False ''inline'' = Inr p \<and>
     parse_input p ''3, Apple, ALL, bogus'' \<lparr>pending = [], log = []\<rparr> =
       (Got (Multi [PInt 1, PInt 2, PInt 3]), \<lparr>pending = [], log = []\<rparr>) \<and>
     parse_input p ''bogus, 2, none, all'' \<lparr>pending = [], log = []\<rparr> =
       (Retry, \<lparr>pending = [], log = [Warned ''Invalid input: bogus'']\<rparr>)"
proof -
  from fruit_prompt obtain p where p: "new_OptionPrompt ''Fruit?'' 3 False
        (OptDict [(''Apple'', PInt 1), (''Banana'', PInt 2), (''Cherry'', PInt 3)])
        DNone False True False ''inline'' = Inr p"
    and f: "multi p" "\<not> case_sensitive p" "\<not> allow_custom p"
      "option_dict p = [(''Apple'', PInt 1), (''Banana'', PInt 2), (''Cherry'', PInt 3)]"
      "index_map p = [(''1'', PInt 1), (''2'', PInt 2), (''3'', PInt 3)]"
      "value_map p = [(PStr ''apple'', PInt 1), (PStr ''1'', PInt 1), (PStr ''banana'', PInt 2),
                      (PStr ''2'', PInt 2), (PStr ''cherry'', PInt 3), (PStr ''3'', PInt 3)]"
    by blast
  have "tokens (py_lower ''3, Apple, ALL, bogus'') = [''3'', ''apple''] @ ''all'' # [''bogus'']"
    by code_simp
  with f(2) have t1: "tokens (if case_sensitive p then ''3, Apple, ALL, bogus''
      else py_lower ''3, Apple, ALL, bogus'') = [''3'', ''apple''] @ ''all'' # [''bogus'']"
    by (simp only: if_False)
  have "tokens (py_lower ''bogus, 2, none, all'') = [''bogus'', ''2''] @ ''none'' # [''all'']"
    by code_simp
  with f(2) have t2: "tokens (if case_sensitive p then ''bogus, 2, none, all''
      else py_lower ''bogus, 2, none, all'') = [''bogus'', ''2''] @ ''none'' # [''all'']"
    by (simp only: if_False)
  have k: "known_token p ''3''" "known_token p ''apple''" "known_token p ''2''"
    "\<not> known_token p ''bogus''" "\<not> known_token p ''all''" "\<not> known_token p ''none''"
    using f by (simp_all add: known_token_def dict_in_def)
  have first1: "\<forall>x \<in> set [''3'', ''apple'']. known_token p x \<or> (x \<noteq> ''all'' \<and> x \<noteq> ''none'')"
    using k by simp
  have first2: "\<forall>x \<in> set [''bogus'', ''2'']. known_token p x \<or> (x \<noteq> ''all'' \<and> x \<noteq> ''none'')"
    using k by simp
  have "parse_input p ''3, Apple, ALL, bogus'' \<lparr>pending = [], log = []\<rparr> =
      (Got (Multi [PInt 1, PInt 2, PInt 3]), \<lparr>pending = [], log = []\<rparr>)"
    using multi_shortcut [OF f(1) t1 _ k(5) first1, of "\<lparr>pending = [], log = []\<rparr>"] k f(3,4)
    by (simp add: dict_values_def)
  moreover have "parse_input p ''bogus, 2, none, all'' \<lparr>pending = [], log = []\<rparr> =
      (Retry, \<lparr>pending = [], log = [Warned ''Invalid input: bogus'']\<rparr>)"
    using multi_shortcut [OF f(1) t2 _ k(6) first2, of "\<lparr>pending = [], log = []\<rparr>"] k f(3)
    by (simp add: emit_def)
  ultimately show ?thesis
    using p by blast
qed

end
